theory Spec2Isabelle
  imports Complex_Main "HOL-Library.Log_Nat"
begin

section \<open>JavaScript strings\<close>

text \<open>
  A JavaScript string is a sequence of UTF-16 code units. The model uses \<^typ>\<open>string\<close>:
  every \<^typ>\<open>char\<close> stands for one code unit in the range 0..255 (ASCII and Latin-1), so
  \<open>length\<close> is the \<open>.length\<close> of the source. Texts with code units above 255 are outside
  the model. All literals of the source that the model needs are ASCII.
\<close>

definition toLowerCase_char :: "char \<Rightarrow> char" where
  \<comment> \<open>\<open>A-Z\<close> and the Latin-1 capitals \<open>0xC0-0xDE\<close> (without the multiplication sign \<open>0xD7\<close>)\<close>
  "toLowerCase_char c = (let n = (of_char c :: nat) in
     if (65 \<le> n \<and> n \<le> 90) \<or> (192 \<le> n \<and> n \<le> 222 \<and> n \<noteq> 215)
     then char_of (n + 32) else c)"

definition toLowerCase :: "string \<Rightarrow> string" where
  "toLowerCase s = map toLowerCase_char s"

definition isWhiteSpace :: "char \<Rightarrow> bool" where
  \<comment> \<open>TAB, LF, VT, FF, CR, SP, NBSP: what \<open>trim\<close> strips, within the modelled range\<close>
  "isWhiteSpace c = (let n = (of_char c :: nat) in (9 \<le> n \<and> n \<le> 13) \<or> n = 32 \<or> n = 160)"

definition trim :: "string \<Rightarrow> string" where
  "trim s = rev (dropWhile isWhiteSpace (rev (dropWhile isWhiteSpace s)))"

definition startsWith :: "string \<Rightarrow> string \<Rightarrow> bool" where
  "startsWith s p = (take (length p) s = p)"

definition endsWith :: "string \<Rightarrow> string \<Rightarrow> bool" where
  "endsWith s p = (length p \<le> length s \<and> drop (length s - length p) s = p)"

definition includes_str :: "string \<Rightarrow> string \<Rightarrow> bool" where
  "includes_str s p = list_ex (\<lambda>i. take (length p) (drop i s) = p) [0 ..< Suc (length s)]"

section \<open>Regular expressions with the flags \<open>g\<close> and \<open>i\<close>\<close>

text \<open>
  Every pattern of \<open>ModerationService\<close> is built from literal text, \<open>\b\<close>, \<open>.*\<close>, \<open>\d+\<close>,
  a non-capturing alternation and concatenation, and carries the flags \<open>gi\<close>.
  \<open>ends r s i\<close> lists the end positions of the matches of \<open>r\<close> that start at position \<open>i\<close> of
  \<open>s\<close>, in the order in which the backtracking matcher tries them: the alternatives
  left to right, the greedy quantifiers longest first. The head of the list is the match
  the engine reports.
\<close>

datatype regex =
    Str string
  | WordB
  | DotStar
  | Digits1
  | Alt "regex list"
  | Seq "regex list"

definition isWordChar :: "char \<Rightarrow> bool" where
  "isWordChar c = (let n = (of_char c :: nat) in
     (48 \<le> n \<and> n \<le> 57) \<or> (65 \<le> n \<and> n \<le> 90) \<or> n = 95 \<or> (97 \<le> n \<and> n \<le> 122))"

definition isLineTerminator :: "char \<Rightarrow> bool" where
  "isLineTerminator c = (let n = (of_char c :: nat) in n = 10 \<or> n = 13)"

definition isDigit :: "char \<Rightarrow> bool" where
  "isDigit c = (let n = (of_char c :: nat) in 48 \<le> n \<and> n \<le> 57)"

definition Canonicalize :: "char \<Rightarrow> char" where
  \<comment> \<open>the case folding of the flag \<open>i\<close>: upper case, and a code unit above 127 never
      folds to an ASCII one\<close>
  "Canonicalize c = (let n = (of_char c :: nat) in
     if (97 \<le> n \<and> n \<le> 122) \<or> (224 \<le> n \<and> n \<le> 254 \<and> n \<noteq> 247)
     then char_of (n - 32) else c)"

definition isWordBoundary :: "string \<Rightarrow> nat \<Rightarrow> bool" where
  "isWordBoundary s i =
     ((0 < i \<and> i - 1 < length s \<and> isWordChar (s ! (i - 1))) \<noteq> (i < length s \<and> isWordChar (s ! i)))"

fun ends :: "regex \<Rightarrow> string \<Rightarrow> nat \<Rightarrow> nat list" where
  "ends (Str w) s i =
     (if map Canonicalize (take (length w) (drop i s)) = map Canonicalize w
      then [i + length w] else [])"
| "ends WordB s i = (if isWordBoundary s i then [i] else [])"
| "ends DotStar s i =
     rev [i ..< Suc (i + length (takeWhile (\<lambda>c. \<not> isLineTerminator c) (drop i s)))]"
| "ends Digits1 s i = rev [Suc i ..< Suc (i + length (takeWhile isDigit (drop i s)))]"
| "ends (Alt rs) s i = concat (map (\<lambda>r. ends r s i) rs)"
| "ends (Seq rs) s i = foldl (\<lambda>js r. concat (map (\<lambda>j. ends r s j) js)) [i] rs"

text \<open>The search of \<open>RegExpBuiltinExec\<close>: the first start position, in the order given, at
  which the pattern matches, and the end of that match.\<close>

fun scan :: "regex \<Rightarrow> string \<Rightarrow> nat list \<Rightarrow> nat option" where
  "scan r s [] = None"
| "scan r s (i # is) = (case ends r s i of [] \<Rightarrow> scan r s is | e # _ \<Rightarrow> Some e)"

record RegExp =
  source :: regex
  lastIndex :: nat

text \<open>\<open>RegExp.prototype.test\<close> on a pattern with the flag \<open>g\<close>: the search starts at
  \<open>lastIndex\<close>; a match leaves \<open>lastIndex\<close> at its end, a failure resets it to 0. The
  object is mutated, so the function returns it.\<close>

definition test :: "RegExp \<Rightarrow> string \<Rightarrow> bool \<times> RegExp" where
  "test re s =
     (if length s < lastIndex re then (False, re\<lparr>lastIndex := 0\<rparr>)
      else case scan (source re) s [lastIndex re ..< Suc (length s)] of
             None \<Rightarrow> (False, re\<lparr>lastIndex := 0\<rparr>)
           | Some e \<Rightarrow> (True, re\<lparr>lastIndex := e\<rparr>))"

definition RegExp_new :: "regex \<Rightarrow> RegExp" where
  "RegExp_new r = \<lparr>source = r, lastIndex = 0\<rparr>"

text \<open>\<open>for (const pattern of patterns) if (pattern.test(content)) return ...\<close>: the
  patterns are tested in order up to the first that matches; each tested pattern keeps
  its new \<open>lastIndex\<close>.\<close>

fun testFirst :: "RegExp list \<Rightarrow> string \<Rightarrow> bool \<times> RegExp list" where
  "testFirst [] s = (False, [])"
| "testFirst (p # ps) s =
     (case test p s of
        (True, p') \<Rightarrow> (True, p' # ps)
      | (False, p') \<Rightarrow> (case testFirst ps s of (b, ps') \<Rightarrow> (b, p' # ps')))"

subsection \<open>The patterns of \<open>ModerationService\<close>\<close>

definition bannedSources :: "regex list" where
  "bannedSources =
    [Seq [WordB, Alt [Str ''fuck'', Str ''shit'', Str ''damn'', Str ''bitch''], WordB],
     Seq [WordB, Alt [Str ''meet'', Str ''meetup'', Str ''hotel'', Str ''address'', Str ''phone''],
          WordB],
     Seq [WordB, Alt [Str ''under'', Str ''kid'', Str ''minor'', Str ''teen'', Str ''child''], WordB,
          DotStar, WordB, Alt [Str ''18'', Str ''years'', Str ''age''], WordB],
     Seq [WordB, Alt [Str ''suicide'', Str ''kill'', Str ''death'', Str ''harm''], WordB],
     Seq [WordB, Alt [Str ''drug'', Str ''cocaine'', Str ''heroin'', Str ''meth''], WordB]]"

definition suspiciousSources :: "regex list" where
  "suspiciousSources =
    [Seq [WordB, Alt [Str ''daddy'', Str ''baby'', Str ''little''], WordB],
     Seq [WordB, Alt [Str ''rape'', Str ''force'', Str ''non-consent''], WordB],
     Seq [WordB, Alt [Str ''send'', Str ''show'', Str ''pics'', Str ''nude''], WordB,
          DotStar, WordB, Alt [Str ''free'', Str ''no'', Str ''without''], WordB],
     Seq [Str ''$'', Digits1, DotStar, WordB, Alt [Str ''cash'', Str ''paypal'', Str ''venmo''],
          WordB]]"

definition escalationSources :: "regex list" where
  "escalationSources =
    [Seq [WordB, Alt [Str ''minor'', Seq [Str ''under'', DotStar, Str ''18''], Str ''underage''],
          WordB],
     Seq [WordB, Alt [Str ''kill'', Str ''suicide'', Str ''harm'', Str ''violence''], WordB],
     Seq [WordB, Alt [Str ''personal'', Str ''real'', Str ''actual'', Str ''home''], WordB,
          DotStar, WordB, Alt [Str ''address'', Str ''location'', Str ''meet''], WordB]]"

section \<open>JavaScript numbers\<close>

text \<open>
  A JavaScript number is an IEEE 754 binary64 value (a double). The model represents a
  finite double by the rational it denotes, and an arithmetic operation of the source by
  the exact operation followed by \<open>double\<close>, the rounding to the nearest double, ties to
  the even significand (the only rounding mode of the language). For \<open>x\<close> other than 0,
  \<open>exponent \<bar>x\<bar>\<close> is the \<open>e\<close> with \<open>2^e \<le> \<bar>x\<bar> < 2^(e+1)\<close>; the doubles of that binade are
  the multiples of \<open>2^(e-52)\<close>. The exponent is not bounded in the model, so there is no
  overflow and there are no subnormal numbers: for a queue that a JavaScript array can
  hold (fewer than \<open>2^32\<close> items) every value of the score computation lies between
  \<open>2^(-32)\<close> and \<open>2^42\<close>, far inside the normal range, and the counts are integers below
  \<open>2^53\<close>, which are doubles. \<open>Math.round\<close> is exact: the integer closest to its
  argument, a half going up. The literals of the classifier's verdicts (0.95, 0.9, 0.8,
  0.7) are never computed with and are written as the decimals of the source.
\<close>

definition exponent :: "rat \<Rightarrow> int" where
  "exponent x =
     (case quotient_of x of
        (a, b) \<Rightarrow> let d = bitlen a - bitlen b in if x < 2 powi d then d - 1 else d)"

definition roundTiesToEven :: "rat \<Rightarrow> int" where
  "roundTiesToEven x =
     (let f = \<lfloor>x\<rfloor>; d = x - of_int f
      in if d < 1 / 2 then f else if 1 / 2 < d then f + 1 else if even f then f else f + 1)"

definition double :: "rat \<Rightarrow> rat" where
  "double x =
     (if x = 0 then 0
      else let q = 2 powi (exponent \<bar>x\<bar> - 52)
           in sgn x * (of_int (roundTiesToEven (\<bar>x\<bar> / q)) * q))"

definition Math_round :: "rat \<Rightarrow> rat" where
  "Math_round x = of_int \<lfloor>x + 1 / 2\<rfloor>"

section \<open>The schema\<close>

text \<open>
  The rows of the tables the message pipeline reads or writes, with the columns it uses.
  Timestamps are instants (\<^typ>\<open>nat\<close>); \<open>new Date().toISOString()\<close> is modelled by the
  instant itself. A nullable column is an \<open>option\<close>. The \<open>jsonb\<close> payloads are values of
  \<open>jsonv\<close>.
\<close>

datatype jsonv =
    JUndefined
  | JNull
  | JBool bool
  | JNum rat
  | JStr string
  | JTime nat
  | JArr "jsonv list"
  | JObj "(string \<times> jsonv) list"

record ConsentStatus =
  ageAffirmed :: bool
  romanticContent :: bool
  timestamp :: nat

record Fan =
  fan_id :: string
  fan_xUserId :: string
  fan_handle :: string
  fan_preferences :: "(string \<times> jsonv) list option"
  fan_spendTier :: "string option"
  fan_boundaries :: "string list option"
  fan_consentStatus :: "ConsentStatus option"
  fan_updatedAt :: nat

record Persona =
  persona_id :: string
  persona_creatorId :: string
  persona_name :: string

record Conversation =
  conv_id :: string
  conv_fanId :: string
  conv_personaId :: string
  conv_threadSummary :: "string option"
  conv_sentiment :: "string option"
  conv_lastMessageAt :: "nat option"
  conv_isActive :: bool
  conv_updatedAt :: nat

record Message =
  msg_id :: string
  msg_conversationId :: string
  msg_type :: string
  msg_content :: string
  msg_sender :: string
  msg_moderationStatus :: string
  msg_sentAt :: "nat option"
  msg_createdAt :: nat

record AuditLog =
  log_id :: string
  log_action :: string
  log_entityType :: string
  log_entityId :: string
  log_userId :: "string option"
  log_fanId :: "string option"
  log_details :: "(string \<times> jsonv) list"
  log_createdAt :: nat

record ModerationQueue =
  mq_id :: string
  mq_content :: string
  mq_flagReason :: string
  mq_severity :: string
  mq_status :: "string option"
  mq_reviewedBy :: "string option"
  mq_reviewedAt :: "nat option"
  mq_createdAt :: nat

text \<open>
  The state: the tables of the database (each a list of rows in insertion order; of
  \<open>users\<close> only the ids), the number of ids generated so far, the three pattern arrays of
  the one shared \<open>moderationService\<close> instance, and a log of the user messages handed to
  the response generator (kept for the claims about whether it is invoked).
\<close>

record System =
  users :: "string list"
  personas :: "Persona list"
  fans :: "Fan list"
  conversations :: "Conversation list"
  messages :: "Message list"
  auditLogs :: "AuditLog list"
  moderationQueue :: "ModerationQueue list"
  uuidCount :: nat
  bannedPatterns :: "RegExp list"
  suspiciousPatterns :: "RegExp list"
  escalationPatterns :: "RegExp list"
  llmRequests :: "string list"

record AIResponse =
  ai_message :: string
  ai_toolCalls :: "(string \<times> jsonv) list"

text \<open>The collaborators outside the repository: the id generator of the database and the
  two calls to the language model (each with its own fallback, so neither throws).\<close>

record Env =
  gen_random_uuid :: "nat \<Rightarrow> string"
  generateResponse :: "Persona \<Rightarrow> Fan \<Rightarrow> Message list \<Rightarrow> string option \<Rightarrow> string \<Rightarrow> AIResponse"
  analyzeSentiment :: "string \<Rightarrow> string"

section \<open>\<open>DatabaseStorage\<close>\<close>

definition getFan :: "string \<Rightarrow> System \<Rightarrow> Fan option" where
  "getFan ident s = find (\<lambda>f. fan_id f = ident) (fans s)"

definition getPersona :: "string \<Rightarrow> System \<Rightarrow> Persona option" where
  "getPersona ident s = find (\<lambda>p. persona_id p = ident) (personas s)"

text \<open>\<open>updateFan\<close> sets the columns named in \<open>updates\<close> (here a function on the row) and
  \<open>updatedAt\<close>, on the rows with the given id.\<close>

definition updateFan :: "string \<Rightarrow> (Fan \<Rightarrow> Fan) \<Rightarrow> nat \<Rightarrow> System \<Rightarrow> System" where
  "updateFan ident updates now s =
     s\<lparr>fans := map (\<lambda>f. if fan_id f = ident then (updates f)\<lparr>fan_updatedAt := now\<rparr> else f) (fans s)\<rparr>"

definition getConversationByFanAndPersona :: "string \<Rightarrow> string \<Rightarrow> System \<Rightarrow> Conversation option" where
  "getConversationByFanAndPersona fanId personaId s =
     find (\<lambda>c. conv_fanId c = fanId \<and> conv_personaId c = personaId \<and> conv_isActive c)
       (conversations s)"

definition createConversation ::
  "Env \<Rightarrow> nat \<Rightarrow> string \<Rightarrow> string \<Rightarrow> System \<Rightarrow> Conversation \<times> System" where
  "createConversation env now fanId personaId s =
     (let created = \<lparr>conv_id = gen_random_uuid env (uuidCount s), conv_fanId = fanId,
                     conv_personaId = personaId, conv_threadSummary = Some [],
                     conv_sentiment = Some ''neutral'', conv_lastMessageAt = Some now,
                     conv_isActive = True, conv_updatedAt = now\<rparr>
      in (created, s\<lparr>conversations := conversations s @ [created],
                     uuidCount := Suc (uuidCount s)\<rparr>))"

definition updateConversation :: "string \<Rightarrow> nat \<Rightarrow> string \<Rightarrow> System \<Rightarrow> System" where
  "updateConversation ident now sentiment s =
     s\<lparr>conversations :=
         map (\<lambda>c. if conv_id c = ident
                  then c\<lparr>conv_lastMessageAt := Some now, conv_sentiment := Some sentiment,
                         conv_updatedAt := now\<rparr>
                  else c) (conversations s)\<rparr>"

definition createMessage ::
  "Env \<Rightarrow> nat \<Rightarrow> string \<Rightarrow> string \<Rightarrow> string \<Rightarrow> System \<Rightarrow> Message \<times> System" where
  "createMessage env now conversationId content sender s =
     (let created = \<lparr>msg_id = gen_random_uuid env (uuidCount s),
                     msg_conversationId = conversationId, msg_type = ''text'',
                     msg_content = content, msg_sender = sender,
                     msg_moderationStatus = ''approved'', msg_sentAt = Some now,
                     msg_createdAt = now\<rparr>
      in (created, s\<lparr>messages := messages s @ [created], uuidCount := Suc (uuidCount s)\<rparr>))"

definition getConversationMessages :: "string \<Rightarrow> nat \<Rightarrow> System \<Rightarrow> Message list" where
  \<comment> \<open>newest first, at most \<open>limit\<close> rows\<close>
  "getConversationMessages conversationId limit s =
     take limit (rev (sort_key msg_createdAt
       (filter (\<lambda>m. msg_conversationId m = conversationId) (messages s))))"

text \<open>\<open>audit_logs.user_id\<close> and \<open>audit_logs.fan_id\<close> are foreign keys: an insert that names a
  user or fan that does not exist throws (\<open>None\<close>).\<close>

definition createAuditLog ::
  "Env \<Rightarrow> nat \<Rightarrow> string \<Rightarrow> string \<Rightarrow> string \<Rightarrow> string option \<Rightarrow> string option \<Rightarrow>
   (string \<times> jsonv) list \<Rightarrow> System \<Rightarrow> System option" where
  "createAuditLog env now act entityType entityId userId fanId details s =
     (if (case userId of None \<Rightarrow> True | Some u \<Rightarrow> u \<in> set (users s)) \<and>
         (case fanId of None \<Rightarrow> True | Some f \<Rightarrow> f \<in> set (map fan_id (fans s)))
      then Some (s\<lparr>auditLogs := auditLogs s @
                     [\<lparr>log_id = gen_random_uuid env (uuidCount s), log_action = act,
                       log_entityType = entityType, log_entityId = entityId,
                       log_userId = userId, log_fanId = fanId, log_details = details,
                       log_createdAt = now\<rparr>],
                   uuidCount := Suc (uuidCount s)\<rparr>)
      else None)"

definition createModerationQueue ::
  "Env \<Rightarrow> nat \<Rightarrow> string \<Rightarrow> string \<Rightarrow> string \<Rightarrow> string \<Rightarrow> System \<Rightarrow> System" where
  "createModerationQueue env now content flagReason severity status s =
     s\<lparr>moderationQueue := moderationQueue s @
          [\<lparr>mq_id = gen_random_uuid env (uuidCount s), mq_content = content,
            mq_flagReason = flagReason, mq_severity = severity, mq_status = Some status,
            mq_reviewedBy = None, mq_reviewedAt = None, mq_createdAt = now\<rparr>],
       uuidCount := Suc (uuidCount s)\<rparr>"

text \<open>\<open>updateModerationQueue\<close> as the route calls it, with \<open>{status, reviewedBy, reviewedAt}\<close>.
  A key that the request body lacks (\<open>None\<close>) leaves its column as it is.
  \<open>moderation_queue.reviewed_by\<close> is a foreign key to \<open>users\<close>: writing an unknown user to
  a row throws (\<open>Inl\<close>). The result is the first updated row, if any.\<close>

definition updateModerationQueue ::
  "string \<Rightarrow> string option \<Rightarrow> string option \<Rightarrow> nat \<Rightarrow> System \<Rightarrow>
   string + (ModerationQueue option \<times> System)" where
  "updateModerationQueue ident status reviewedBy now s =
     (let upd = (\<lambda>q. q\<lparr>mq_status := (case status of None \<Rightarrow> mq_status q | Some v \<Rightarrow> Some v),
                        mq_reviewedBy := (case reviewedBy of None \<Rightarrow> mq_reviewedBy q
                                          | Some v \<Rightarrow> Some v),
                        mq_reviewedAt := Some now\<rparr>)
      in if list_ex (\<lambda>q. mq_id q = ident) (moderationQueue s) \<and>
            (case reviewedBy of None \<Rightarrow> False | Some u \<Rightarrow> u \<notin> set (users s))
         then Inl ''violates foreign key constraint''
         else Inr (map_option upd (find (\<lambda>q. mq_id q = ident) (moderationQueue s)),
                   s\<lparr>moderationQueue :=
                       map (\<lambda>q. if mq_id q = ident then upd q else q) (moderationQueue s)\<rparr>))"

section \<open>\<open>AuditService\<close>\<close>

text \<open>\<open>logAction\<close> catches the failure of the insert: the audit entry is then dropped and
  the state is as before.\<close>

definition logAction ::
  "Env \<Rightarrow> nat \<Rightarrow> string \<Rightarrow> string \<Rightarrow> string \<Rightarrow> (string \<times> jsonv) list \<Rightarrow> string option \<Rightarrow>
   string option \<Rightarrow> System \<Rightarrow> System" where
  "logAction env now act entityType entityId details userId fanId s =
     (case createAuditLog env now act entityType entityId userId fanId details s of
        Some s' \<Rightarrow> s'
      | None \<Rightarrow> s)"

definition logModerationAction ::
  "Env \<Rightarrow> nat \<Rightarrow> string \<Rightarrow> string \<Rightarrow> string \<Rightarrow> string \<Rightarrow> string option \<Rightarrow> System \<Rightarrow> System" where
  "logModerationAction env now messageId act reason severity reviewedBy s =
     logAction env now ''moderation_action'' ''message'' messageId
       [(''action'', JStr act), (''reason'', JStr reason), (''severity'', JStr severity),
        (''reviewedBy'', case reviewedBy of None \<Rightarrow> JUndefined | Some u \<Rightarrow> JStr u),
        (''timestamp'', JTime now)]
       reviewedBy None s"

definition logFanInteraction ::
  "Env \<Rightarrow> nat \<Rightarrow> string \<Rightarrow> string \<Rightarrow> (string \<times> jsonv) list \<Rightarrow> System \<Rightarrow> System" where
  "logFanInteraction env now fanId interactionType details s =
     logAction env now ''fan_interaction'' ''fan'' fanId
       ((''interactionType'', JStr interactionType) # details @ [(''timestamp'', JTime now)])
       None (Some fanId) s"

section \<open>\<open>ModerationService\<close>\<close>

datatype Action = Allow | Block | Escalate | Review

datatype Severity = Low | Medium | High | Critical

record ModerationResult =
  action :: Action
  reason :: "string option"
  severity :: Severity
  confidence :: rat

fun severity_text :: "Severity \<Rightarrow> string" where
  "severity_text Low = ''low''"
| "severity_text Medium = ''medium''"
| "severity_text High = ''high''"
| "severity_text Critical = ''critical''"

fun action_text :: "Action \<Rightarrow> string" where
  "action_text Allow = ''allow''"
| "action_text Block = ''block''"
| "action_text Escalate = ''escalate''"
| "action_text Review = ''review''"

text \<open>The state of a new \<open>ModerationService\<close>: every pattern with \<open>lastIndex\<close> 0.\<close>

definition newBannedPatterns :: "RegExp list" where
  "newBannedPatterns = map RegExp_new bannedSources"

definition newSuspiciousPatterns :: "RegExp list" where
  "newSuspiciousPatterns = map RegExp_new suspiciousSources"

definition newEscalationPatterns :: "RegExp list" where
  "newEscalationPatterns = map RegExp_new escalationSources"

definition logToModerationQueue ::
  "Env \<Rightarrow> nat \<Rightarrow> string \<Rightarrow> string \<Rightarrow> Severity \<Rightarrow> System \<Rightarrow> System" where
  "logToModerationQueue env now content flagReason sev s =
     createModerationQueue env now content flagReason (severity_text sev) ''pending'' s"

definition moderateMessage :: "Env \<Rightarrow> nat \<Rightarrow> string \<Rightarrow> System \<Rightarrow> ModerationResult \<times> System" where
  "moderateMessage env now content s =
     (case testFirst (escalationPatterns s) content of (m1, ps1) \<Rightarrow>
      let s1 = s\<lparr>escalationPatterns := ps1\<rparr> in
      if m1 then
        (\<lparr>action = Escalate, reason = Some ''Content matches critical violation pattern'',
          severity = Critical, confidence = 95 / 100\<rparr>,
         logToModerationQueue env now content ''escalation_pattern'' Critical s1)
      else
      (case testFirst (bannedPatterns s1) content of (m2, ps2) \<Rightarrow>
       let s2 = s1\<lparr>bannedPatterns := ps2\<rparr> in
       if m2 then
         (\<lparr>action = Block, reason = Some ''Content matches banned pattern'',
           severity = High, confidence = 9 / 10\<rparr>,
          logToModerationQueue env now content ''banned_pattern'' High s2)
       else
       (case testFirst (suspiciousPatterns s2) content of (m3, ps3) \<Rightarrow>
        let s3 = s2\<lparr>suspiciousPatterns := ps3\<rparr> in
        if m3 then
          (\<lparr>action = Review, reason = Some ''Content matches suspicious pattern'',
            severity = Medium, confidence = 7 / 10\<rparr>,
           logToModerationQueue env now content ''suspicious_pattern'' Medium s3)
        else if length content < 3 then
          (\<lparr>action = Allow, reason = None, severity = Low, confidence = 8 / 10\<rparr>, s3)
        else
          (\<lparr>action = Allow, reason = None, severity = Low, confidence = 95 / 100\<rparr>, s3))))"

definition checkConsentGate :: "string \<Rightarrow> System \<Rightarrow> bool" where
  "checkConsentGate fanId s =
     (case getFan fanId s of
        None \<Rightarrow> False
      | Some fan \<Rightarrow>
          (case fan_consentStatus fan of
             None \<Rightarrow> False
           | Some consent \<Rightarrow> ageAffirmed consent \<and> romanticContent consent))"

definition stopWords :: "string list" where
  "stopWords = [''stop'', ''unsubscribe'', ''no'', ''quit'', ''end'', ''block'']"

definition checkStopWords :: "string \<Rightarrow> bool" where
  "checkStopWords content =
     (let normalizedContent = trim (toLowerCase content)
      in list_ex (\<lambda>word.
           normalizedContent = word \<or>
           includes_str normalizedContent ('' '' @ word @ '' '') \<or>
           startsWith normalizedContent (word @ '' '') \<or>
           endsWith normalizedContent ('' '' @ word)) stopWords)"

definition escalateMessage :: "Env \<Rightarrow> nat \<Rightarrow> string \<Rightarrow> string \<Rightarrow> System \<Rightarrow> System" where
  "escalateMessage env now content reason' s =
     logToModerationQueue env now content (''ESCALATED: '' @ reason') Critical s"

text \<open>Every arithmetic operation of \<open>getComplianceScore\<close> rounds its result to a double.
  The \<open>catch\<close> branch (a failing read of the queue, result 98) is not part of the model:
  the read of a list does not fail.\<close>

definition getComplianceScore :: "System \<Rightarrow> rat" where
  "getComplianceScore s =
     (let queue = moderationQueue s;
          total = length queue
      in if total = 0 then 100
         else
           let blocked = length (filter (\<lambda>item. mq_status item = Some ''blocked'') queue);
               escalated = length (filter (\<lambda>item. mq_severity item = ''critical'') queue);
               violationRate =
                 double (double (of_nat blocked + double (of_nat escalated * 2)) / of_nat total);
               score = max 0 (double (100 - double (violationRate * 100)))
           in double (Math_round (double (score * 10)) / 10))"

definition processStopRequest :: "Env \<Rightarrow> nat \<Rightarrow> string \<Rightarrow> System \<Rightarrow> System" where
  "processStopRequest env now fanId s =
     (let s1 = updateFan fanId
                 (\<lambda>f. f\<lparr>fan_boundaries := Some [''stop_all_messages''],
                        fan_preferences := Some [(''opted_out'', JBool True)]\<rparr>) now s
      in case createAuditLog env now ''stop_request'' ''fan'' fanId None None
                [(''reason'', JStr ''user_requested_stop'')] s1 of
           Some s2 \<Rightarrow> s2
         | None \<Rightarrow> s1)"

definition json_of_ModerationResult :: "ModerationResult \<Rightarrow> jsonv" where
  "json_of_ModerationResult r =
     JObj ((''action'', JStr (action_text (action r))) #
           (case reason r of None \<Rightarrow> [] | Some t \<Rightarrow> [(''reason'', JStr t)]) @
           [(''severity'', JStr (severity_text (severity r))), (''confidence'', JNum (confidence r))])"

definition logConversation ::
  "Env \<Rightarrow> nat \<Rightarrow> string \<Rightarrow> string \<Rightarrow> string \<Rightarrow> string \<Rightarrow> ModerationResult \<Rightarrow> System \<Rightarrow> System" where
  "logConversation env now conversationId messageId aiResponse fanMessage moderationResult s =
     logAction env now ''ai_conversation'' ''conversation'' conversationId
       [(''messageId'', JStr messageId), (''aiResponse'', JStr (take 200 aiResponse)),
        (''fanMessage'', JStr (take 200 fanMessage)),
        (''moderationResult'', json_of_ModerationResult moderationResult),
        (''timestamp'', JTime now)]
       None None s"

section \<open>The routes\<close>

text \<open>
  The responses of \<open>POST /api/ai/reply\<close>:
  \<^item> \<open>Blocked reason\<close>: status 400, "Message blocked by moderation system" and the reason;
  \<^item> \<open>Flagged\<close>: status 400, "Message flagged for review", "Content requires human review";
  \<^item> \<open>StopProcessed\<close>: status 200, the fixed acknowledgment, action \<open>stop_processed\<close>;
  \<^item> \<open>NotFound\<close>: status 404, "Persona or fan not found";
  \<^item> \<open>ConsentRequired\<close>: status 200, the fixed consent prompt, action \<open>consent_required\<close>;
  \<^item> \<open>Replied message actions conversationId messageId\<close>: status 200;
  \<^item> \<open>InternalServerError\<close>: status 500, from the \<open>catch\<close> of the handler.
\<close>

datatype Response =
    Blocked "string option"
  | Flagged
  | StopProcessed
  | NotFound
  | ConsentRequired
  | Replied string "jsonv list" string string
  | InternalServerError

text \<open>The three tool calls that the handler dispatches through \<open>this\<close>, which is
  undefined in the route callback: a reply that carries one of them throws after
  everything has been stored, and the handler answers 500.\<close>

definition dispatchedThroughThis :: "string \<Rightarrow> bool" where
  "dispatchedThroughThis ty = (ty = ''offer_menu'' \<or> ty = ''create_payment_link'' \<or> ty = ''send_media'')"

text \<open>The handler in three parts: \<open>getOrCreateConversation\<close> is its step "Get or create
  conversation", \<open>generateAndStore\<close> is everything after it (history, generated reply, the
  two stored messages, the conversation update, the audit entry, the tool calls), and
  \<open>ai_reply\<close> is the handler from its start, ending in these two.\<close>

definition getOrCreateConversation ::
  "Env \<Rightarrow> nat \<Rightarrow> string \<Rightarrow> string \<Rightarrow> System \<Rightarrow> Conversation \<times> System" where
  "getOrCreateConversation env now fanId personaId s =
     (case getConversationByFanAndPersona fanId personaId s of
        Some c \<Rightarrow> (c, s)
      | None \<Rightarrow> createConversation env now fanId personaId s)"

definition generateAndStore ::
  "Env \<Rightarrow> nat \<Rightarrow> Persona \<Rightarrow> Fan \<Rightarrow> ModerationResult \<Rightarrow> string \<Rightarrow> Conversation \<Rightarrow> System \<Rightarrow>
   Response \<times> System" where
  "generateAndStore env now persona fan moderationResult message conversation s2 =
     (let recentMessages = getConversationMessages (conv_id conversation) 10 s2;
          aiResponse = generateResponse env persona fan recentMessages
            (case conv_threadSummary conversation of
               None \<Rightarrow> None
             | Some t \<Rightarrow> if t = [] then None else Some t) message;
          s3 = s2\<lparr>llmRequests := llmRequests s2 @ [message]\<rparr>
      in (case createMessage env now (conv_id conversation) message ''fan'' s3 of
            (fanMessage, s4) \<Rightarrow>
          (case createMessage env now (conv_id conversation) (ai_message aiResponse) ''ai'' s4 of
             (aiMessage, s5) \<Rightarrow>
           let sentiment = analyzeSentiment env message;
               s6 = updateConversation (conv_id conversation) now sentiment s5;
               s7 = logConversation env now (conv_id conversation) (msg_id aiMessage)
                      (ai_message aiResponse) message moderationResult s6
           in if list_ex (\<lambda>toolCall. dispatchedThroughThis (fst toolCall))
                   (ai_toolCalls aiResponse)
              then (InternalServerError, s7)
              else (Replied (ai_message aiResponse) [] (conv_id conversation)
                      (msg_id aiMessage), s7))))"

definition ai_reply ::
  "Env \<Rightarrow> nat \<Rightarrow> System \<Rightarrow> string \<Rightarrow> string \<Rightarrow> string \<Rightarrow> Response \<times> System" where
  "ai_reply env now s fanId personaId message =
     (case moderateMessage env now message s of (moderationResult, s1) \<Rightarrow>
      if action moderationResult = Block then
        (Blocked (reason moderationResult),
         logModerationAction env now [] ''block''
           (case reason moderationResult of None \<Rightarrow> [] | Some t \<Rightarrow> t)
           (severity_text (severity moderationResult)) None s1)
      else if action moderationResult = Escalate then
        (Flagged,
         escalateMessage env now message
           (case reason moderationResult of None \<Rightarrow> [] | Some t \<Rightarrow> t) s1)
      else if checkStopWords message then
        (StopProcessed, processStopRequest env now fanId s1)
      else
        (case (getPersona personaId s1, getFan fanId s1) of
           (Some persona, Some fan) \<Rightarrow>
             if \<not> checkConsentGate fanId s1 then (ConsentRequired, s1)
             else
               (case getOrCreateConversation env now fanId personaId s1 of
                  (conversation, s2) \<Rightarrow>
                    generateAndStore env now persona fan moderationResult message
                      conversation s2)
         | _ \<Rightarrow> (NotFound, s1)))"

text \<open>\<open>POST /api/consent/affirm\<close>: the response carries the consent record that was
  written.\<close>

definition consent_affirm ::
  "Env \<Rightarrow> nat \<Rightarrow> System \<Rightarrow> string \<Rightarrow> string list \<Rightarrow> ConsentStatus \<times> System" where
  "consent_affirm env now s fanId affirmations =
     (let consentStatus =
            \<lparr>ageAffirmed = (''I am 18+'' \<in> set affirmations),
             romanticContent = (''I consent to romantic messages'' \<in> set affirmations),
             timestamp = now\<rparr>;
          s1 = updateFan fanId (\<lambda>f. f\<lparr>fan_consentStatus := Some consentStatus\<rparr>) now s;
          s2 = logFanInteraction env now fanId ''consent_affirmed''
                 [(''affirmations'', JArr (map JStr affirmations))] s1
      in (consentStatus, s2))"

text \<open>\<open>PUT /api/moderation/queue/:id\<close>: \<open>Inr\<close> is the 200 response with the updated row
  (none when no row has the id), \<open>Inl\<close> the 400 response with the message of the error
  that \<open>updateModerationQueue\<close> threw.\<close>

definition resolve_queue_item ::
  "nat \<Rightarrow> System \<Rightarrow> string \<Rightarrow> string option \<Rightarrow> string option \<Rightarrow>
   (string + ModerationQueue option) \<times> System" where
  "resolve_queue_item now s ident status reviewedBy =
     (case updateModerationQueue ident status reviewedBy now s of
        Inl err \<Rightarrow> (Inl err, s)
      | Inr (item, s') \<Rightarrow> (Inr item, s'))"

text \<open>A system right after start: empty queue and audit log, a new \<open>ModerationService\<close>.\<close>

definition startSystem :: "string list \<Rightarrow> Persona list \<Rightarrow> Fan list \<Rightarrow> System" where
  "startSystem us ps fs =
     \<lparr>users = us, personas = ps, fans = fs, conversations = [], messages = [],
      auditLogs = [], moderationQueue = [], uuidCount = 0,
      bannedPatterns = newBannedPatterns, suspiciousPatterns = newSuspiciousPatterns,
      escalationPatterns = newEscalationPatterns, llmRequests = []\<rparr>"

section \<open>Auxiliary definitions for the verification\<close>

text \<open>\<open>afterMatch ps k e\<close>: the pattern array \<open>ps\<close> after its pattern \<open>k\<close> has matched up
  to position \<open>e\<close>.\<close>

definition afterMatch :: "RegExp list \<Rightarrow> nat \<Rightarrow> nat \<Rightarrow> RegExp list" where
  "afterMatch ps k e = ps[k := (ps ! k)\<lparr>lastIndex := e\<rparr>]"

text \<open>A small system for the concrete cases: one creator, one persona, a fan with full
  consent and earlier boundaries, a fan without a consent record.\<close>

definition demoEnv :: Env where
  "demoEnv =
     \<lparr>gen_random_uuid = (\<lambda>n. replicate (Suc n) (CHR ''u'')),
      generateResponse = (\<lambda>persona fan recent summary userMessage.
         \<lparr>ai_message = ''hello'', ai_toolCalls = []\<rparr>),
      analyzeSentiment = (\<lambda>message. ''neutral'')\<rparr>"

definition demoPersona :: Persona where
  "demoPersona = \<lparr>persona_id = ''persona-1'', persona_creatorId = ''user-1'', persona_name = ''Ava''\<rparr>"

definition demoFan :: Fan where
  "demoFan =
     \<lparr>fan_id = ''fan-1'', fan_xUserId = ''x-1'', fan_handle = ''one'', fan_preferences = None,
      fan_spendTier = Some ''free'', fan_boundaries = Some [''no_politics''],
      fan_consentStatus = Some \<lparr>ageAffirmed = True, romanticContent = True, timestamp = 1\<rparr>,
      fan_updatedAt = 1\<rparr>"

definition demoFanNoConsent :: Fan where
  "demoFanNoConsent =
     \<lparr>fan_id = ''fan-2'', fan_xUserId = ''x-2'', fan_handle = ''two'', fan_preferences = None,
      fan_spendTier = Some ''free'', fan_boundaries = None, fan_consentStatus = None,
      fan_updatedAt = 1\<rparr>"

definition demoSystem :: System where
  "demoSystem = startSystem [''user-1''] [demoPersona] [demoFan, demoFanNoConsent]"

text \<open>A pattern matches a text when it matches at some start position; a tier matches
  when one of its patterns does. Neither depends on \<open>lastIndex\<close>.\<close>

definition matchesPattern :: "regex \<Rightarrow> string \<Rightarrow> bool" where
  "matchesPattern r s = list_ex (\<lambda>i. ends r s i \<noteq> []) [0 ..< Suc (length s)]"

definition matchesTier :: "RegExp list \<Rightarrow> string \<Rightarrow> bool" where
  "matchesTier ps s = list_ex (\<lambda>p. matchesPattern (source p) s) ps"

text \<open>The pattern arrays of the state are those of the class, whatever their \<open>lastIndex\<close>.\<close>

definition hasServicePatterns :: "System \<Rightarrow> bool" where
  "hasServicePatterns s =
     (map source (escalationPatterns s) = escalationSources \<and>
      map source (bannedPatterns s) = bannedSources \<and>
      map source (suspiciousPatterns s) = suspiciousSources)"

text \<open>What \<open>processStopRequest\<close> writes to a fan row.\<close>

definition optedOut :: "nat \<Rightarrow> Fan \<Rightarrow> Fan" where
  "optedOut now f =
     f\<lparr>fan_boundaries := Some [''stop_all_messages''],
       fan_preferences := Some [(''opted_out'', JBool True)],
       fan_updatedAt := now\<rparr>"

text \<open>A queue with one item: as the classifier stored it (\<open>demoPendingSystem\<close>), and after
  a reviewer has blocked it (\<open>demoQueueSystem\<close>).\<close>

definition demoItem :: ModerationQueue where
  "demoItem =
     \<lparr>mq_id = ''item-1'', mq_content = ''damn'', mq_flagReason = ''banned_pattern'',
      mq_severity = ''high'', mq_status = Some ''blocked'', mq_reviewedBy = Some ''user-1'',
      mq_reviewedAt = Some 8, mq_createdAt = 7\<rparr>"

definition demoPendingSystem :: System where
  "demoPendingSystem =
     (startSystem [''user-1''] [] [])
       \<lparr>moderationQueue :=
          [demoItem\<lparr>mq_status := Some ''pending'', mq_reviewedBy := None, mq_reviewedAt := None\<rparr>]\<rparr>"

definition demoQueueSystem :: System where
  "demoQueueSystem = (startSystem [''user-1''] [] [])\<lparr>moderationQueue := [demoItem]\<rparr>"

text \<open>The counts that the compliance score is computed from, and the score in the words
  of the specification (section 4.8): \<open>100 - min(100, 100 * (blocked_count +
  2*critical_count) / total_count)\<close>, and 100 when \<open>total_count\<close> is 0.\<close>

definition blocked_count :: "System \<Rightarrow> nat" where
  "blocked_count s = length (filter (\<lambda>item. mq_status item = Some ''blocked'') (moderationQueue s))"

definition critical_count :: "System \<Rightarrow> nat" where
  "critical_count s = length (filter (\<lambda>item. mq_severity item = ''critical'') (moderationQueue s))"

definition spec_score :: "nat \<Rightarrow> nat \<Rightarrow> nat \<Rightarrow> rat" where
  "spec_score total_count blocked critical =
     (if total_count = 0 then 100
      else 100 - min 100 (100 * of_nat (blocked + 2 * critical) / of_nat total_count))"

text \<open>The computation of \<open>getComplianceScore\<close> as a function of the three counts.\<close>

definition scoreFromCounts :: "nat \<Rightarrow> nat \<Rightarrow> nat \<Rightarrow> rat" where
  "scoreFromCounts totalCount blocked escalated =
     (if totalCount = 0 then 100
      else
        let violationRate =
              double (double (of_nat blocked + double (of_nat escalated * 2)) / of_nat totalCount);
            score = max 0 (double (100 - double (violationRate * 100)))
        in double (Math_round (double (score * 10)) / 10))"

text \<open>A queue of three items, one of them blocked; and a queue of 80 items, 49 of them
  blocked and none critical.\<close>

definition demoEightySystem :: System where
  "demoEightySystem =
     (startSystem [''user-1''] [] [])
       \<lparr>moderationQueue :=
          replicate 49 demoItem @ replicate 31 (demoItem\<lparr>mq_status := Some ''pending''\<rparr>)\<rparr>"

definition demoScoreSystem :: System where
  "demoScoreSystem =
     (startSystem [''user-1''] [] [])
       \<lparr>moderationQueue :=
          [demoItem,
           demoItem\<lparr>mq_id := ''item-2'', mq_status := Some ''pending''\<rparr>,
           demoItem\<lparr>mq_id := ''item-3'', mq_status := Some ''approved''\<rparr>]\<rparr>"

section \<open>Evaluating the character classes\<close>

text \<open>The character classes and the case mappings, on the eight bits of a code unit
  (lowest bit first). Each equation is proved from the definition for all 256 code units;
  the evaluation of the concrete cases below uses these equations.\<close>

lemma isDigit_Char [code]:
  "isDigit (Char b0 b1 b2 b3 b4 b5 b6 b7) =
     (\<not> b7 \<and> \<not> b6 \<and> b5 \<and> b4 \<and> (\<not> b3 \<or> (\<not> b2 \<and> \<not> b1)))"
  by (cases b0; cases b1; cases b2; cases b3; cases b4; cases b5; cases b6; cases b7;
      simp add: isDigit_def)

lemma isWordChar_Char [code]:
  "isWordChar (Char b0 b1 b2 b3 b4 b5 b6 b7) =
     (\<not> b7 \<and>
      (if b6 then
         ((b0 \<or> b1 \<or> b2 \<or> b3 \<or> b4) \<and> \<not> (b4 \<and> b3 \<and> (b2 \<or> (b1 \<and> b0)))) \<or>
         (\<not> b5 \<and> b4 \<and> b3 \<and> b2 \<and> b1 \<and> b0)
       else b5 \<and> b4 \<and> (\<not> b3 \<or> (\<not> b2 \<and> \<not> b1))))"
  by (cases b0; cases b1; cases b2; cases b3; cases b4; cases b5; cases b6; cases b7;
      simp add: isWordChar_def)

lemma Canonicalize_Char [code]:
  "Canonicalize (Char b0 b1 b2 b3 b4 b5 b6 b7) =
     (if b5 \<and> b6 \<and>
         (if b7 then \<not> (b4 \<and> b3 \<and> b2 \<and> b1 \<and> b0) \<and> \<not> (b4 \<and> \<not> b3 \<and> b2 \<and> b1 \<and> b0)
          else (b0 \<or> b1 \<or> b2 \<or> b3 \<or> b4) \<and> \<not> (b4 \<and> b3 \<and> (b2 \<or> (b1 \<and> b0))))
      then Char b0 b1 b2 b3 b4 False b6 b7
      else Char b0 b1 b2 b3 b4 b5 b6 b7)"
  by (cases b0; cases b1; cases b2; cases b3; cases b4; cases b5; cases b6; cases b7;
      simp add: Canonicalize_def char_of_eq_iff)

lemma isLineTerminator_Char [code]:
  "isLineTerminator (Char b0 b1 b2 b3 b4 b5 b6 b7) =
     (\<not> b7 \<and> \<not> b6 \<and> \<not> b5 \<and> \<not> b4 \<and> b3 \<and> ((\<not> b2 \<and> b1 \<and> \<not> b0) \<or> (b2 \<and> \<not> b1 \<and> b0)))"
  by (cases b0; cases b1; cases b2; cases b3; cases b4; cases b5; cases b6; cases b7;
      simp add: isLineTerminator_def)

lemma isWhiteSpace_Char [code]:
  "isWhiteSpace (Char b0 b1 b2 b3 b4 b5 b6 b7) =
     (if b5 then \<not> b6 \<and> \<not> b4 \<and> \<not> b3 \<and> \<not> b2 \<and> \<not> b1 \<and> \<not> b0
      else \<not> b7 \<and> \<not> b6 \<and> \<not> b4 \<and> b3 \<and> (if b2 then \<not> b1 else b1 \<or> b0))"
  by (cases b0; cases b1; cases b2; cases b3; cases b4; cases b5; cases b6; cases b7;
      simp add: isWhiteSpace_def)

lemma toLowerCase_char_Char [code]:
  "toLowerCase_char (Char b0 b1 b2 b3 b4 b5 b6 b7) =
     (if \<not> b5 \<and> b6 \<and>
         (if b7 then \<not> (b4 \<and> b3 \<and> b2 \<and> b1 \<and> b0) \<and> \<not> (b4 \<and> \<not> b3 \<and> b2 \<and> b1 \<and> b0)
          else (b0 \<or> b1 \<or> b2 \<or> b3 \<or> b4) \<and> \<not> (b4 \<and> b3 \<and> (b2 \<or> (b1 \<and> b0))))
      then Char b0 b1 b2 b3 b4 True b6 b7
      else Char b0 b1 b2 b3 b4 b5 b6 b7)"
  by (cases b0; cases b1; cases b2; cases b3; cases b4; cases b5; cases b6; cases b7;
      simp add: toLowerCase_char_def char_of_eq_iff)

section \<open>The classifier\<close>

lemma moderateMessage_fst:
  "fst (moderateMessage env now c s) =
     (if fst (testFirst (escalationPatterns s) c) then
        \<lparr>action = Escalate, reason = Some ''Content matches critical violation pattern'',
          severity = Critical, confidence = 95 / 100\<rparr>
      else if fst (testFirst (bannedPatterns s) c) then
        \<lparr>action = Block, reason = Some ''Content matches banned pattern'',
          severity = High, confidence = 9 / 10\<rparr>
      else if fst (testFirst (suspiciousPatterns s) c) then
        \<lparr>action = Review, reason = Some ''Content matches suspicious pattern'',
          severity = Medium, confidence = 7 / 10\<rparr>
      else if length c < 3 then
        \<lparr>action = Allow, reason = None, severity = Low, confidence = 8 / 10\<rparr>
      else \<lparr>action = Allow, reason = None, severity = Low, confidence = 95 / 100\<rparr>)"
  by (simp add: moderateMessage_def Let_def split: prod.splits)

lemma logToModerationQueue_patterns [simp]:
  "escalationPatterns (logToModerationQueue env now c f sev s) = escalationPatterns s"
  "bannedPatterns (logToModerationQueue env now c f sev s) = bannedPatterns s"
  "suspiciousPatterns (logToModerationQueue env now c f sev s) = suspiciousPatterns s"
  by (simp_all add: logToModerationQueue_def createModerationQueue_def)

lemma moderateMessage_escalationPatterns:
  "escalationPatterns (snd (moderateMessage env now c s)) =
     snd (testFirst (escalationPatterns s) c)"
  by (simp add: moderateMessage_def Let_def split: prod.splits)

lemma moderateMessage_bannedPatterns:
  "bannedPatterns (snd (moderateMessage env now c s)) =
     (if fst (testFirst (escalationPatterns s) c) then bannedPatterns s
      else snd (testFirst (bannedPatterns s) c))"
  by (simp add: moderateMessage_def Let_def split: prod.splits)

lemma moderateMessage_suspiciousPatterns:
  "suspiciousPatterns (snd (moderateMessage env now c s)) =
     (if fst (testFirst (escalationPatterns s) c) \<or> fst (testFirst (bannedPatterns s) c)
      then suspiciousPatterns s
      else snd (testFirst (suspiciousPatterns s) c))"
  by (simp add: moderateMessage_def Let_def split: prod.splits)

subsection \<open>The flag \<open>g\<close> makes the classifier depend on earlier calls\<close>

lemma escalation_kill_new:
  "testFirst newEscalationPatterns ''kill'' = (True, afterMatch newEscalationPatterns (Suc 0) 4)"
  by code_simp

lemma escalation_kill_again:
  "testFirst (afterMatch newEscalationPatterns (Suc 0) 4) ''kill'' = (False, newEscalationPatterns)"
  by code_simp

lemma banned_kill_new:
  "testFirst newBannedPatterns ''kill'' = (True, afterMatch newBannedPatterns 3 4)"
  by code_simp

text \<open>
  C9. The claim: two successive calls of \<open>moderateMessage\<close> with the same text on the same
  service instance return the same verdict. On the code this fails: on a new instance the
  first call with the text \<open>kill\<close> answers \<open>escalate\<close> (critical, 0.95) and leaves the
  escalation pattern with \<open>lastIndex = 4\<close>; the second call searches that pattern from
  position 4, finds nothing, and the banned pattern answers \<open>block\<close> (high, 0.9).
\<close>

theorem moderateMessage_same_text_twice_differs:
  "fst (moderateMessage env now ''kill'' (startSystem us ps fs)) =
     \<lparr>action = Escalate, reason = Some ''Content matches critical violation pattern'',
      severity = Critical, confidence = 95 / 100\<rparr> \<and>
   fst (moderateMessage env now' ''kill''
          (snd (moderateMessage env now ''kill'' (startSystem us ps fs)))) =
     \<lparr>action = Block, reason = Some ''Content matches banned pattern'',
      severity = High, confidence = 9 / 10\<rparr>"
  by (simp add: moderateMessage_fst moderateMessage_escalationPatterns
        moderateMessage_bannedPatterns startSystem_def
        escalation_kill_new escalation_kill_again banned_kill_new)

subsection \<open>The tiers on a new instance\<close>

lemma scan_None_iff: "(scan r s js = None) = (\<forall>i \<in> set js. ends r s i = [])"
  by (induction js) (auto split: list.splits)

lemma test_new:
  assumes "lastIndex re = 0"
  shows "fst (test re s) = matchesPattern (source re) s"
proof (cases "scan (source re) s [0 ..< Suc (length s)]")
  case None
  then have "\<forall>i \<in> set [0 ..< Suc (length s)]. ends (source re) s i = []"
    by (simp only: scan_None_iff)
  then have "\<not> matchesPattern (source re) s"
    by (simp add: matchesPattern_def list_ex_iff del: upt_Suc)
  with None assms show ?thesis
    by (simp add: test_def del: upt_Suc)
next
  case (Some e)
  then have "\<not> (\<forall>i \<in> set [0 ..< Suc (length s)]. ends (source re) s i = [])"
    by (simp only: scan_None_iff [symmetric]) simp
  then have "matchesPattern (source re) s"
    by (simp add: matchesPattern_def list_ex_iff del: upt_Suc)
  with Some assms show ?thesis
    by (simp add: test_def del: upt_Suc)
qed

lemma testFirst_new:
  "\<forall>p \<in> set ps. lastIndex p = 0 \<Longrightarrow> fst (testFirst ps s) = matchesTier ps s"
proof (induction ps)
  case Nil
  show ?case by (simp add: matchesTier_def)
next
  case (Cons p ps)
  then have t: "fst (test p s) = matchesPattern (source p) s"
    and r: "fst (testFirst ps s) = matchesTier ps s"
    by (simp_all add: test_new)
  show ?case
    using t r
    by (cases "test p s"; cases "testFirst ps s")
       (auto simp add: matchesTier_def split: bool.splits)
qed

text \<open>On an instance whose patterns all have \<open>lastIndex = 0\<close>, as a new one has, the verdict
  is decided by the tiers in the order escalation, block, review, and then by the length.\<close>

lemma moderateMessage_new_instance:
  assumes "\<forall>p \<in> set (escalationPatterns s). lastIndex p = 0"
    "\<forall>p \<in> set (bannedPatterns s). lastIndex p = 0"
    "\<forall>p \<in> set (suspiciousPatterns s). lastIndex p = 0"
  shows "fst (moderateMessage env now c s) =
     (if matchesTier (escalationPatterns s) c then
        \<lparr>action = Escalate, reason = Some ''Content matches critical violation pattern'',
          severity = Critical, confidence = 95 / 100\<rparr>
      else if matchesTier (bannedPatterns s) c then
        \<lparr>action = Block, reason = Some ''Content matches banned pattern'',
          severity = High, confidence = 9 / 10\<rparr>
      else if matchesTier (suspiciousPatterns s) c then
        \<lparr>action = Review, reason = Some ''Content matches suspicious pattern'',
          severity = Medium, confidence = 7 / 10\<rparr>
      else if length c < 3 then
        \<lparr>action = Allow, reason = None, severity = Low, confidence = 8 / 10\<rparr>
      else \<lparr>action = Allow, reason = None, severity = Low, confidence = 95 / 100\<rparr>)"
  by (simp add: moderateMessage_fst testFirst_new assms)

subsection \<open>A text of the escalation tier, classified twice\<close>

lemma escalation_suicide_new:
  "testFirst newEscalationPatterns ''suicide'' = (True, afterMatch newEscalationPatterns (Suc 0) 7)"
  by code_simp

lemma escalation_suicide_again:
  "testFirst (afterMatch newEscalationPatterns (Suc 0) 7) ''suicide'' = (False, newEscalationPatterns)"
  by code_simp

lemma banned_suicide_new:
  "testFirst newBannedPatterns ''suicide'' = (True, afterMatch newBannedPatterns 3 7)"
  by code_simp

text \<open>
  C4. The claim: the tiers are evaluated in the order escalation, block, review, the first
  match decides, and a text that matches both an escalation pattern and a block pattern is
  always escalated, never downgraded. The text \<open>suicide\<close> matches an escalation pattern and a
  banned pattern. On a new instance the first call escalates it; the second call on the
  same instance returns \<open>block\<close>, severity high, confidence 0.9: the escalation pattern is
  searched from its \<open>lastIndex = 7\<close> and so misses the text. (The order of the tiers and
  the constants of the verdicts are as claimed on an instance whose patterns have
  \<open>lastIndex = 0\<close>: lemma \<open>moderateMessage_new_instance\<close>.)
\<close>

theorem escalation_text_downgraded_on_second_call:
  "fst (testFirst newEscalationPatterns ''suicide'') \<and>
   fst (testFirst newBannedPatterns ''suicide'') \<and>
   action (fst (moderateMessage env now ''suicide'' (startSystem us ps fs))) = Escalate \<and>
   fst (moderateMessage env now' ''suicide''
          (snd (moderateMessage env now ''suicide'' (startSystem us ps fs)))) =
     \<lparr>action = Block, reason = Some ''Content matches banned pattern'',
      severity = High, confidence = 9 / 10\<rparr>"
  by (simp add: moderateMessage_fst moderateMessage_escalationPatterns
        moderateMessage_bannedPatterns startSystem_def
        escalation_suicide_new escalation_suicide_again banned_suicide_new)

section \<open>The pipeline of \<open>POST /api/ai/reply\<close>\<close>

lemma moderateMessage_tables [simp]:
  "users (snd (moderateMessage env now c s)) = users s"
  "personas (snd (moderateMessage env now c s)) = personas s"
  "fans (snd (moderateMessage env now c s)) = fans s"
  "conversations (snd (moderateMessage env now c s)) = conversations s"
  "messages (snd (moderateMessage env now c s)) = messages s"
  "auditLogs (snd (moderateMessage env now c s)) = auditLogs s"
  "llmRequests (snd (moderateMessage env now c s)) = llmRequests s"
  by (simp_all add: moderateMessage_def logToModerationQueue_def createModerationQueue_def
        Let_def split: prod.splits)

lemma moderateMessage_lookups [simp]:
  "getFan f (snd (moderateMessage env now c s)) = getFan f s"
  "getPersona p (snd (moderateMessage env now c s)) = getPersona p s"
  "checkConsentGate f (snd (moderateMessage env now c s)) = checkConsentGate f s"
  "getConversationByFanAndPersona f p (snd (moderateMessage env now c s)) =
     getConversationByFanAndPersona f p s"
  by (simp_all add: getFan_def getPersona_def checkConsentGate_def
        getConversationByFanAndPersona_def)

text \<open>
  C1 (as amended). The handler calls the classifier first and the stop-word check after
  it. For every message with a stop-word token (the whole trimmed message or a
  space-delimited token, case-insensitive) the turn ends in the stop acknowledgment
  exactly when the classifier's verdict for the turn is neither \<open>block\<close> nor \<open>escalate\<close>; on
  those two verdicts it ends in the blocked notice or the review notice.
\<close>

theorem stop_words_checked_after_classifier:
  assumes "checkStopWords message"
  shows "fst (ai_reply env now s fanId personaId message) =
          (if action (fst (moderateMessage env now message s)) = Block
           then Blocked (reason (fst (moderateMessage env now message s)))
           else if action (fst (moderateMessage env now message s)) = Escalate then Flagged
           else StopProcessed)"
  using assms by (simp add: ai_reply_def Let_def split: prod.splits)

text \<open>The theorem at the message \<open>hey STOP\<close>, which no pattern matches.\<close>

theorem stop_words_checked_after_classifier_witness:
  "checkStopWords ''hey STOP'' \<and>
   fst (ai_reply demoEnv 7 demoSystem ''fan-1'' ''persona-1'' ''hey STOP'') = StopProcessed"
proof -
  have h: "checkStopWords ''hey STOP''"
    by code_simp
  have m: "action (fst (moderateMessage demoEnv 7 ''hey STOP'' demoSystem)) = Allow"
    by code_simp
  show ?thesis
    using stop_words_checked_after_classifier
            [OF h, of demoEnv 7 demoSystem "''fan-1''" "''persona-1''"] h m
    by simp
qed

text \<open>
  C1 as stated (the stop-word check comes before the classifier, so a stop word always
  ends in \<open>stopped\<close>) fails: \<open>no kill\<close> starts with the stop word \<open>no\<close> and matches an
  escalation pattern; the turn ends in the review notice and the fan is not opted out.
\<close>

theorem stop_word_with_escalation_text_counterexample:
  "checkStopWords ''no kill'' \<and>
   fst (ai_reply demoEnv 7 demoSystem ''fan-1'' ''persona-1'' ''no kill'') = Flagged \<and>
   fans (snd (ai_reply demoEnv 7 demoSystem ''fan-1'' ''persona-1'' ''no kill'')) = fans demoSystem"
  by code_simp

subsection \<open>Texts that no pattern matches\<close>

lemma scan_no_match: "\<forall>i \<in> set js. ends r s i = [] \<Longrightarrow> scan r s js = None"
  by (induction js) simp_all

lemma test_no_match:
  assumes "\<not> matchesPattern (source re) s"
  shows "test re s = (False, re\<lparr>lastIndex := 0\<rparr>)"
proof -
  from assms have "\<forall>i \<in> set [lastIndex re ..< Suc (length s)]. ends (source re) s i = []"
    by (auto simp: matchesPattern_def list_ex_iff)
  then have "scan (source re) s [lastIndex re ..< Suc (length s)] = None"
    by (rule scan_no_match)
  then show ?thesis
    by (simp add: test_def del: upt_Suc)
qed

lemma testFirst_no_match:
  "\<not> matchesTier ps s \<Longrightarrow> testFirst ps s = (False, map (\<lambda>p. p\<lparr>lastIndex := 0\<rparr>) ps)"
  by (induction ps) (simp_all add: matchesTier_def test_no_match)

lemma matchesTier_sources:
  "matchesTier ps s = list_ex (\<lambda>r. matchesPattern r s) (map source ps)"
  by (simp add: matchesTier_def list_ex_iff)

lemma moderateMessage_no_match:
  assumes "\<not> matchesTier (escalationPatterns s) c" "\<not> matchesTier (bannedPatterns s) c"
    "\<not> matchesTier (suspiciousPatterns s) c"
  shows "moderateMessage env now c s =
          (\<lparr>action = Allow, reason = None, severity = Low,
            confidence = (if length c < 3 then 8 / 10 else 95 / 100)\<rparr>,
           s\<lparr>escalationPatterns := map (\<lambda>p. p\<lparr>lastIndex := 0\<rparr>) (escalationPatterns s),
             bannedPatterns := map (\<lambda>p. p\<lparr>lastIndex := 0\<rparr>) (bannedPatterns s),
             suspiciousPatterns := map (\<lambda>p. p\<lparr>lastIndex := 0\<rparr>) (suspiciousPatterns s)\<rparr>)"
  using assms by (simp add: moderateMessage_def testFirst_no_match)

lemma hey_STOP_no_pattern:
  "\<not> list_ex (\<lambda>r. matchesPattern r ''hey STOP'') escalationSources"
  "\<not> list_ex (\<lambda>r. matchesPattern r ''hey STOP'') bannedSources"
  "\<not> list_ex (\<lambda>r. matchesPattern r ''hey STOP'') suspiciousSources"
  by code_simp+

lemma hey_STOP_stop_word: "checkStopWords ''hey STOP''"
  by code_simp

lemma hey_STOP_allowed:
  "hasServicePatterns s \<Longrightarrow> action (fst (moderateMessage env now ''hey STOP'' s)) = Allow"
  by (simp add: moderateMessage_no_match matchesTier_sources hasServicePatterns_def
        hey_STOP_no_pattern)

subsection \<open>The stop request\<close>

lemma ai_reply_stop:
  assumes "action (fst (moderateMessage env now message s)) \<noteq> Block"
    "action (fst (moderateMessage env now message s)) \<noteq> Escalate" "checkStopWords message"
  shows "ai_reply env now s fanId personaId message =
           (StopProcessed, processStopRequest env now fanId (snd (moderateMessage env now message s)))"
  using assms by (cases "moderateMessage env now message s") (simp add: ai_reply_def)

lemma processStopRequest_effect:
  "processStopRequest env now fanId s =
     s\<lparr>fans := map (\<lambda>f. if fan_id f = fanId then optedOut now f else f) (fans s),
       auditLogs := auditLogs s @
         [\<lparr>log_id = gen_random_uuid env (uuidCount s), log_action = ''stop_request'',
           log_entityType = ''fan'', log_entityId = fanId, log_userId = None, log_fanId = None,
           log_details = [(''reason'', JStr ''user_requested_stop'')], log_createdAt = now\<rparr>],
       uuidCount := Suc (uuidCount s)\<rparr>"
  by (simp add: processStopRequest_def updateFan_def createAuditLog_def optedOut_def)

lemma optedOut_rows:
  "\<forall>f \<in> set (map (\<lambda>f. if fan_id f = fanId then optedOut now f else f) fs).
     fan_id f = fanId \<longrightarrow> fan_boundaries f = Some [''stop_all_messages'']"
  by (induction fs) (simp_all add: optedOut_def)

text \<open>
  C7 (as amended). On a positive stop-word match in a turn that the classifier has not
  blocked or escalated, the handler answers with the fixed acknowledgment and does
  nothing else: every row of the fan gets the boundaries \<open>["stop_all_messages"]\<close> in place
  of its earlier ones and the preferences \<open>{opted_out: true}\<close>, one audit entry with the
  action \<open>stop_request\<close> is appended, the moderation queue is as the classifier left it,
  and no consent check, conversation, message or call of the response generator follows.
  For the text \<open>hey STOP\<close>, which no pattern of the service matches, the turn therefore
  ends in the acknowledgment and the fan's boundaries are \<open>["stop_all_messages"]\<close>.
\<close>

theorem stop_request_short_circuits:
  "(action (fst (moderateMessage env now message s)) \<noteq> Block \<and>
    action (fst (moderateMessage env now message s)) \<noteq> Escalate \<and>
    checkStopWords message \<longrightarrow>
      fst (ai_reply env now s fanId personaId message) = StopProcessed \<and>
      fans (snd (ai_reply env now s fanId personaId message)) =
        map (\<lambda>f. if fan_id f = fanId then optedOut now f else f) (fans s) \<and>
      map log_action (auditLogs (snd (ai_reply env now s fanId personaId message))) =
        map log_action (auditLogs s) @ [''stop_request''] \<and>
      moderationQueue (snd (ai_reply env now s fanId personaId message)) =
        moderationQueue (snd (moderateMessage env now message s)) \<and>
      llmRequests (snd (ai_reply env now s fanId personaId message)) = llmRequests s \<and>
      messages (snd (ai_reply env now s fanId personaId message)) = messages s \<and>
      conversations (snd (ai_reply env now s fanId personaId message)) = conversations s) \<and>
   (hasServicePatterns s \<longrightarrow>
      fst (ai_reply env now s fanId personaId ''hey STOP'') = StopProcessed \<and>
      (\<forall>f \<in> set (fans (snd (ai_reply env now s fanId personaId ''hey STOP''))).
         fan_id f = fanId \<longrightarrow> fan_boundaries f = Some [''stop_all_messages'']))"
proof (intro conjI impI)
  assume h: "action (fst (moderateMessage env now message s)) \<noteq> Block \<and>
    action (fst (moderateMessage env now message s)) \<noteq> Escalate \<and> checkStopWords message"
  then have r: "ai_reply env now s fanId personaId message =
      (StopProcessed, processStopRequest env now fanId (snd (moderateMessage env now message s)))"
    by (simp add: ai_reply_stop)
  show "fst (ai_reply env now s fanId personaId message) = StopProcessed"
    by (simp add: r)
  show "fans (snd (ai_reply env now s fanId personaId message)) =
        map (\<lambda>f. if fan_id f = fanId then optedOut now f else f) (fans s)"
    by (simp add: r processStopRequest_effect)
  show "map log_action (auditLogs (snd (ai_reply env now s fanId personaId message))) =
        map log_action (auditLogs s) @ [''stop_request'']"
    by (simp add: r processStopRequest_effect)
  show "moderationQueue (snd (ai_reply env now s fanId personaId message)) =
        moderationQueue (snd (moderateMessage env now message s))"
    by (simp add: r processStopRequest_effect)
  show "llmRequests (snd (ai_reply env now s fanId personaId message)) = llmRequests s"
    by (simp add: r processStopRequest_effect)
  show "messages (snd (ai_reply env now s fanId personaId message)) = messages s"
    by (simp add: r processStopRequest_effect)
  show "conversations (snd (ai_reply env now s fanId personaId message)) = conversations s"
    by (simp add: r processStopRequest_effect)
next
  assume p: "hasServicePatterns s"
  then have r: "ai_reply env now s fanId personaId ''hey STOP'' =
      (StopProcessed, processStopRequest env now fanId (snd (moderateMessage env now ''hey STOP'' s)))"
    by (simp add: ai_reply_stop hey_STOP_allowed hey_STOP_stop_word)
  show "fst (ai_reply env now s fanId personaId ''hey STOP'') = StopProcessed"
    by (simp add: r)
  show "\<forall>f \<in> set (fans (snd (ai_reply env now s fanId personaId ''hey STOP''))).
         fan_id f = fanId \<longrightarrow> fan_boundaries f = Some [''stop_all_messages'']"
    using optedOut_rows [of fanId now "fans s"] by (simp add: r processStopRequest_effect)
qed

lemma demoSystem_patterns: "hasServicePatterns demoSystem"
  by (simp add: hasServicePatterns_def demoSystem_def startSystem_def newEscalationPatterns_def
        newBannedPatterns_def newSuspiciousPatterns_def RegExp_new_def comp_def)

text \<open>The theorem for the fan \<open>fan-1\<close> of the small system, whose boundaries were
  \<open>["no_politics"]\<close>.\<close>

theorem stop_request_short_circuits_witness:
  "action (fst (moderateMessage demoEnv 7 ''hey STOP'' demoSystem)) \<noteq> Block \<and>
   action (fst (moderateMessage demoEnv 7 ''hey STOP'' demoSystem)) \<noteq> Escalate \<and>
   checkStopWords ''hey STOP'' \<and> hasServicePatterns demoSystem \<and>
   fst (ai_reply demoEnv 7 demoSystem ''fan-1'' ''persona-1'' ''hey STOP'') = StopProcessed \<and>
   map fan_boundaries (fans (snd (ai_reply demoEnv 7 demoSystem ''fan-1'' ''persona-1'' ''hey STOP''))) =
     [Some [''stop_all_messages''], None] \<and>
   map log_action (auditLogs (snd (ai_reply demoEnv 7 demoSystem ''fan-1'' ''persona-1'' ''hey STOP''))) =
     [''stop_request'']"
proof -
  have a: "action (fst (moderateMessage demoEnv 7 ''hey STOP'' demoSystem)) = Allow"
    by (simp add: hey_STOP_allowed demoSystem_patterns)
  have f: "fans demoSystem = [demoFan, demoFanNoConsent]" "auditLogs demoSystem = []"
    by (simp_all add: demoSystem_def startSystem_def)
  show ?thesis
    using stop_request_short_circuits
            [of demoEnv 7 "''hey STOP''" demoSystem "''fan-1''" "''persona-1''"]
      a hey_STOP_stop_word demoSystem_patterns
    by (simp add: f demoFan_def demoFanNoConsent_def optedOut_def)
qed

text \<open>
  C7 as stated (every positive stop-word match ends in the acknowledgment with the fan
  opted out) fails: \<open>block hotel\<close> starts with the stop word \<open>block\<close> and matches a banned
  pattern; the turn ends in the blocked notice, the boundaries of the fan stay as they
  were, and the audit entry is a \<open>moderation_action\<close>, not a \<open>stop_request\<close>.
\<close>

theorem stop_word_in_blocked_text_counterexample:
  "checkStopWords ''block hotel'' \<and>
   fst (ai_reply demoEnv 7 demoSystem ''fan-1'' ''persona-1'' ''block hotel'') =
     Blocked (Some ''Content matches banned pattern'') \<and>
   map fan_boundaries
     (fans (snd (ai_reply demoEnv 7 demoSystem ''fan-1'' ''persona-1'' ''block hotel''))) =
     [Some [''no_politics''], None] \<and>
   map log_action
     (auditLogs (snd (ai_reply demoEnv 7 demoSystem ''fan-1'' ''persona-1'' ''block hotel''))) =
     [''moderation_action'']"
  by code_simp

subsection \<open>The branches after the stop-word check\<close>

lemma moderateMessage_queue:
  "moderationQueue (snd (moderateMessage env now c s)) =
     (if action (fst (moderateMessage env now c s)) = Allow then moderationQueue s
      else moderationQueue s @
        [\<lparr>mq_id = gen_random_uuid env (uuidCount s), mq_content = c,
          mq_flagReason =
            (if action (fst (moderateMessage env now c s)) = Escalate then ''escalation_pattern''
             else if action (fst (moderateMessage env now c s)) = Block then ''banned_pattern''
             else ''suspicious_pattern''),
          mq_severity = severity_text (severity (fst (moderateMessage env now c s))),
          mq_status = Some ''pending'', mq_reviewedBy = None, mq_reviewedAt = None,
          mq_createdAt = now\<rparr>])"
  by (simp add: moderateMessage_def logToModerationQueue_def createModerationQueue_def
        Let_def split: prod.splits)

lemma ai_reply_not_found:
  assumes "action (fst (moderateMessage env now message s)) \<noteq> Block"
    "action (fst (moderateMessage env now message s)) \<noteq> Escalate" "\<not> checkStopWords message"
    "getPersona personaId s = None \<or> getFan fanId s = None"
  shows "ai_reply env now s fanId personaId message =
           (NotFound, snd (moderateMessage env now message s))"
proof -
  obtain r s1 where m: "moderateMessage env now message s = (r, s1)"
    by (cases "moderateMessage env now message s")
  have "getPersona personaId s1 = getPersona personaId s" "getFan fanId s1 = getFan fanId s"
    using moderateMessage_lookups(1,2) [of _ env now message s] by (simp_all add: m)
  with assms show ?thesis
    by (auto simp add: ai_reply_def m split: option.splits)
qed

lemma ai_reply_consent_required:
  assumes "action (fst (moderateMessage env now message s)) \<noteq> Block"
    "action (fst (moderateMessage env now message s)) \<noteq> Escalate" "\<not> checkStopWords message"
    "getPersona personaId s = Some persona" "getFan fanId s = Some fan"
    "\<not> checkConsentGate fanId s"
  shows "ai_reply env now s fanId personaId message =
           (ConsentRequired, snd (moderateMessage env now message s))"
proof -
  obtain r s1 where m: "moderateMessage env now message s = (r, s1)"
    by (cases "moderateMessage env now message s")
  have "getPersona personaId s1 = getPersona personaId s" "getFan fanId s1 = getFan fanId s"
    "checkConsentGate fanId s1 = checkConsentGate fanId s"
    using moderateMessage_lookups(1,2,3) [of _ env now message s] by (simp_all add: m)
  with assms show ?thesis
    by (simp add: ai_reply_def m)
qed

lemma createMessage_effect:
  "createMessage env now conversationId content sender s =
     (\<lparr>msg_id = gen_random_uuid env (uuidCount s), msg_conversationId = conversationId,
       msg_type = ''text'', msg_content = content, msg_sender = sender,
       msg_moderationStatus = ''approved'', msg_sentAt = Some now, msg_createdAt = now\<rparr>,
      s\<lparr>messages := messages s @
           [\<lparr>msg_id = gen_random_uuid env (uuidCount s), msg_conversationId = conversationId,
             msg_type = ''text'', msg_content = content, msg_sender = sender,
             msg_moderationStatus = ''approved'', msg_sentAt = Some now, msg_createdAt = now\<rparr>],
        uuidCount := Suc (uuidCount s)\<rparr>)"
  by (simp add: createMessage_def Let_def)

lemma logConversation_effect:
  "auditLogs (logConversation env now c m a f r s) =
     auditLogs s @
       [\<lparr>log_id = gen_random_uuid env (uuidCount s), log_action = ''ai_conversation'',
         log_entityType = ''conversation'', log_entityId = c, log_userId = None, log_fanId = None,
         log_details =
           [(''messageId'', JStr m), (''aiResponse'', JStr (take 200 a)),
            (''fanMessage'', JStr (take 200 f)),
            (''moderationResult'', json_of_ModerationResult r), (''timestamp'', JTime now)],
         log_createdAt = now\<rparr>]"
  "llmRequests (logConversation env now c m a f r s) = llmRequests s"
  "messages (logConversation env now c m a f r s) = messages s"
  "moderationQueue (logConversation env now c m a f r s) = moderationQueue s"
  "fans (logConversation env now c m a f r s) = fans s"
  by (simp_all add: logConversation_def logAction_def createAuditLog_def)

lemma updateConversation_tables:
  "auditLogs (updateConversation c now t s) = auditLogs s"
  "llmRequests (updateConversation c now t s) = llmRequests s"
  "messages (updateConversation c now t s) = messages s"
  "moderationQueue (updateConversation c now t s) = moderationQueue s"
  "fans (updateConversation c now t s) = fans s"
  "uuidCount (updateConversation c now t s) = uuidCount s"
  by (simp_all add: updateConversation_def)

lemma getOrCreateConversation_tables:
  "auditLogs (snd (getOrCreateConversation env now f p s)) = auditLogs s"
  "llmRequests (snd (getOrCreateConversation env now f p s)) = llmRequests s"
  "messages (snd (getOrCreateConversation env now f p s)) = messages s"
  "moderationQueue (snd (getOrCreateConversation env now f p s)) = moderationQueue s"
  "fans (snd (getOrCreateConversation env now f p s)) = fans s"
  by (simp_all add: getOrCreateConversation_def createConversation_def Let_def
        split: option.splits)

lemma generateAndStore_effect:
  "llmRequests (snd (generateAndStore env now persona fan r message c s)) =
     llmRequests s @ [message]"
  "\<exists>reply. map (\<lambda>m. (msg_sender m, msg_content m))
             (messages (snd (generateAndStore env now persona fan r message c s))) =
           map (\<lambda>m. (msg_sender m, msg_content m)) (messages s) @
             [(''fan'', message), (''ai'', reply)]"
  "map log_action (auditLogs (snd (generateAndStore env now persona fan r message c s))) =
     map log_action (auditLogs s) @ [''ai_conversation'']"
  "moderationQueue (snd (generateAndStore env now persona fan r message c s)) =
     moderationQueue s"
  "fans (snd (generateAndStore env now persona fan r message c s)) = fans s"
  by (simp_all add: generateAndStore_def createMessage_effect logConversation_effect
        updateConversation_tables Let_def)

lemma generateAndStore_response:
  "(\<exists>reply actions c' m'.
      fst (generateAndStore env now persona fan r message c s) = Replied reply actions c' m') \<or>
   fst (generateAndStore env now persona fan r message c s) = InternalServerError"
  by (simp add: generateAndStore_def createMessage_effect Let_def)

lemma ai_reply_responds:
  assumes "action (fst (moderateMessage env now message s)) \<noteq> Block"
    "action (fst (moderateMessage env now message s)) \<noteq> Escalate" "\<not> checkStopWords message"
    "getPersona personaId s = Some persona" "getFan fanId s = Some fan"
    "checkConsentGate fanId s"
  shows "ai_reply env now s fanId personaId message =
           generateAndStore env now persona fan (fst (moderateMessage env now message s)) message
             (fst (getOrCreateConversation env now fanId personaId
                    (snd (moderateMessage env now message s))))
             (snd (getOrCreateConversation env now fanId personaId
                    (snd (moderateMessage env now message s))))"
proof -
  obtain r s1 where m: "moderateMessage env now message s = (r, s1)"
    by (cases "moderateMessage env now message s")
  have "getPersona personaId s1 = getPersona personaId s" "getFan fanId s1 = getFan fanId s"
    "checkConsentGate fanId s1 = checkConsentGate fanId s"
    using moderateMessage_lookups(1,2,3) [of _ env now message s] by (simp_all add: m)
  with assms show ?thesis
    by (simp add: ai_reply_def m split: prod.splits)
qed

lemma verdict_severity:
  "action (fst (moderateMessage env now c s)) = Block \<Longrightarrow>
     severity (fst (moderateMessage env now c s)) = High"
  "action (fst (moderateMessage env now c s)) = Review \<Longrightarrow>
     severity (fst (moderateMessage env now c s)) = Medium"
  "action (fst (moderateMessage env now c s)) = Escalate \<Longrightarrow>
     severity (fst (moderateMessage env now c s)) = Critical"
  by (simp_all add: moderateMessage_fst split: if_splits)

subsection \<open>The verdict \<open>review\<close>\<close>

text \<open>
  C2 (as amended). When the classifier returns \<open>review\<close>, it has queued the message, and
  the handler goes on as for \<open>allow\<close>: the response generator is invoked with the message
  exactly when the message is no stop request, the persona and the fan exist and the
  consent gate passes; then the fan's message and the generated reply are stored as a
  pair.
\<close>

theorem review_verdict_continues_to_responder:
  assumes "action (fst (moderateMessage env now message s)) = Review"
  shows "llmRequests (snd (ai_reply env now s fanId personaId message)) =
           (if \<not> checkStopWords message \<and> getPersona personaId s \<noteq> None \<and>
               getFan fanId s \<noteq> None \<and> checkConsentGate fanId s
            then llmRequests s @ [message] else llmRequests s) \<and>
         (\<not> checkStopWords message \<and> getPersona personaId s \<noteq> None \<and>
          getFan fanId s \<noteq> None \<and> checkConsentGate fanId s \<longrightarrow>
            (\<exists>reply. map (\<lambda>m. (msg_sender m, msg_content m))
                       (messages (snd (ai_reply env now s fanId personaId message))) =
                     map (\<lambda>m. (msg_sender m, msg_content m)) (messages s) @
                       [(''fan'', message), (''ai'', reply)]))"
proof -
  have v: "action (fst (moderateMessage env now message s)) \<noteq> Block"
    "action (fst (moderateMessage env now message s)) \<noteq> Escalate"
    using assms by simp_all
  show ?thesis
  proof (cases "checkStopWords message")
    case True
    then show ?thesis
      by (simp add: ai_reply_stop [OF v] processStopRequest_effect)
  next
    case stop: False
    show ?thesis
    proof (cases "getPersona personaId s = None \<or> getFan fanId s = None")
      case True
      then show ?thesis
        using ai_reply_not_found [OF v stop True] by auto
    next
      case False
      then obtain persona fan where
        pf: "getPersona personaId s = Some persona" "getFan fanId s = Some fan"
        by auto
      show ?thesis
      proof (cases "checkConsentGate fanId s")
        case True
        show ?thesis
          using generateAndStore_effect(2) [of env now persona fan
              "fst (moderateMessage env now message s)" message
              "fst (getOrCreateConversation env now fanId personaId
                     (snd (moderateMessage env now message s)))"
              "snd (getOrCreateConversation env now fanId personaId
                     (snd (moderateMessage env now message s)))"]
          by (simp add: ai_reply_responds [OF v stop pf True] generateAndStore_effect(1)
                getOrCreateConversation_tables stop pf True)
      next
        case False
        then show ?thesis
          by (simp add: ai_reply_consent_required [OF v stop pf False] pf)
      qed
    qed
  qed
qed

text \<open>The theorem at the text \<open>hey baby\<close> from the fan with full consent.\<close>

theorem review_verdict_continues_to_responder_witness:
  "action (fst (moderateMessage demoEnv 7 ''hey baby'' demoSystem)) = Review \<and>
   llmRequests (snd (ai_reply demoEnv 7 demoSystem ''fan-1'' ''persona-1'' ''hey baby'')) =
     [''hey baby'']"
proof -
  have h: "action (fst (moderateMessage demoEnv 7 ''hey baby'' demoSystem)) = Review"
    by code_simp
  have c: "\<not> checkStopWords ''hey baby''" "getPersona ''persona-1'' demoSystem \<noteq> None"
    "getFan ''fan-1'' demoSystem \<noteq> None" "checkConsentGate ''fan-1'' demoSystem"
    "llmRequests demoSystem = []"
    by code_simp+
  show ?thesis
    using review_verdict_continues_to_responder
            [OF h, of "''fan-1''" "''persona-1''"] h c
    by simp
qed

text \<open>
  C2 as stated (on \<open>review\<close> the response generator is never invoked and no message pair
  is stored) fails: \<open>my little secret\<close> draws the verdict \<open>review\<close>, and the handler
  passes it to the response generator and stores the fan's message and the reply.
\<close>

theorem review_verdict_reaches_responder_counterexample:
  "action (fst (moderateMessage demoEnv 7 ''my little secret'' demoSystem)) = Review \<and>
   llmRequests (snd (ai_reply demoEnv 7 demoSystem ''fan-1'' ''persona-1'' ''my little secret'')) =
     [''my little secret''] \<and>
   map msg_sender
     (messages (snd (ai_reply demoEnv 7 demoSystem ''fan-1'' ''persona-1'' ''my little secret''))) =
     [''fan'', ''ai'']"
  by code_simp

subsection \<open>Queue items and audit entries of a turn\<close>

lemma ai_reply_block:
  assumes "action (fst (moderateMessage env now message s)) = Block"
  shows "ai_reply env now s fanId personaId message =
           (Blocked (reason (fst (moderateMessage env now message s))),
            logModerationAction env now [] ''block''
              (case reason (fst (moderateMessage env now message s)) of None \<Rightarrow> [] | Some t \<Rightarrow> t)
              (severity_text (severity (fst (moderateMessage env now message s)))) None
              (snd (moderateMessage env now message s)))"
  using assms by (cases "moderateMessage env now message s") (simp add: ai_reply_def)

lemma ai_reply_escalate:
  assumes "action (fst (moderateMessage env now message s)) = Escalate"
  shows "ai_reply env now s fanId personaId message =
           (Flagged,
            escalateMessage env now message
              (case reason (fst (moderateMessage env now message s)) of None \<Rightarrow> [] | Some t \<Rightarrow> t)
              (snd (moderateMessage env now message s)))"
  using assms by (cases "moderateMessage env now message s") (simp add: ai_reply_def)

lemma logModerationAction_effect:
  "\<exists>a. auditLogs (logModerationAction env now m act rsn sev None s) = auditLogs s @ [a] \<and>
        log_action a = ''moderation_action''"
  "moderationQueue (logModerationAction env now m act rsn sev None s) = moderationQueue s"
  by (simp_all add: logModerationAction_def logAction_def createAuditLog_def)

lemma escalateMessage_effect:
  "moderationQueue (escalateMessage env now c rsn s) =
     moderationQueue s @
       [\<lparr>mq_id = gen_random_uuid env (uuidCount s), mq_content = c,
         mq_flagReason = ''ESCALATED: '' @ rsn, mq_severity = ''critical'',
         mq_status = Some ''pending'', mq_reviewedBy = None, mq_reviewedAt = None,
         mq_createdAt = now\<rparr>]"
  "auditLogs (escalateMessage env now c rsn s) = auditLogs s"
  by (simp_all add: escalateMessage_def logToModerationQueue_def createModerationQueue_def)

lemma review_turn_queue:
  assumes "action (fst (moderateMessage env now message s)) = Review"
  shows "moderationQueue (snd (ai_reply env now s fanId personaId message)) =
           moderationQueue (snd (moderateMessage env now message s))"
proof -
  have v: "action (fst (moderateMessage env now message s)) \<noteq> Block"
    "action (fst (moderateMessage env now message s)) \<noteq> Escalate"
    using assms by simp_all
  show ?thesis
  proof (cases "checkStopWords message")
    case True
    then show ?thesis
      by (simp add: ai_reply_stop [OF v] processStopRequest_effect)
  next
    case stop: False
    show ?thesis
    proof (cases "getPersona personaId s = None \<or> getFan fanId s = None")
      case True
      then show ?thesis
        by (simp add: ai_reply_not_found [OF v stop True])
    next
      case False
      then obtain persona fan where
        pf: "getPersona personaId s = Some persona" "getFan fanId s = Some fan"
        by auto
      show ?thesis
      proof (cases "checkConsentGate fanId s")
        case True
        show ?thesis
          by (simp add: ai_reply_responds [OF v stop pf True] generateAndStore_effect(4)
                getOrCreateConversation_tables)
      next
        case False
        then show ?thesis
          by (simp add: ai_reply_consent_required [OF v stop pf False])
      qed
    qed
  qed
qed

lemma review_turn_audit:
  assumes "action (fst (moderateMessage env now message s)) = Review"
  shows "length (auditLogs (snd (ai_reply env now s fanId personaId message))) =
           length (auditLogs s) +
           (if checkStopWords message \<or>
               (getPersona personaId s \<noteq> None \<and> getFan fanId s \<noteq> None \<and>
                checkConsentGate fanId s)
            then 1 else 0)"
proof -
  have v: "action (fst (moderateMessage env now message s)) \<noteq> Block"
    "action (fst (moderateMessage env now message s)) \<noteq> Escalate"
    using assms by simp_all
  show ?thesis
  proof (cases "checkStopWords message")
    case True
    then show ?thesis
      by (simp add: ai_reply_stop [OF v] processStopRequest_effect)
  next
    case stop: False
    show ?thesis
    proof (cases "getPersona personaId s = None \<or> getFan fanId s = None")
      case True
      then show ?thesis
        using ai_reply_not_found [OF v stop True] stop by auto
    next
      case False
      then obtain persona fan where
        pf: "getPersona personaId s = Some persona" "getFan fanId s = Some fan"
        by auto
      show ?thesis
      proof (cases "checkConsentGate fanId s")
        case True
        have "length (map log_action
                (auditLogs (snd (ai_reply env now s fanId personaId message)))) =
              length (map log_action (auditLogs s) @ [''ai_conversation''])"
          by (simp only: ai_reply_responds [OF v stop pf True] generateAndStore_effect(3)
                getOrCreateConversation_tables moderateMessage_tables)
        then show ?thesis
          by (simp add: pf True)
      next
        case False
        then show ?thesis
          by (simp add: ai_reply_consent_required [OF v stop pf False] pf stop)
      qed
    qed
  qed
qed

text \<open>On the verdict \<open>escalate\<close> the handler calls \<open>escalateMessage\<close>, which queues the
  message a second time, and writes no audit entry.\<close>

lemma escalate_turn_queue_and_audit:
  assumes "action (fst (moderateMessage env now message s)) = Escalate"
  shows "length (moderationQueue (snd (ai_reply env now s fanId personaId message))) =
           length (moderationQueue s) + 2 \<and>
         auditLogs (snd (ai_reply env now s fanId personaId message)) = auditLogs s"
  by (simp add: ai_reply_escalate [OF assms] escalateMessage_effect moderateMessage_queue assms)

text \<open>
  C3 (as amended). A message with the verdict \<open>block\<close> adds exactly one item to the
  moderation queue (pending, severity high, the text of the message) and exactly one
  audit entry (\<open>moderation_action\<close>). A message with the verdict \<open>review\<close> adds exactly one
  queue item (pending, severity medium), and one audit entry only when the turn goes on
  to a stop acknowledgment or a reply, none otherwise. A message with the verdict
  \<open>escalate\<close> adds a pending queue item of severity critical with its text.
\<close>

theorem queue_and_audit_per_verdict:
  "(action (fst (moderateMessage env now message s)) = Block \<longrightarrow>
      (\<exists>q a. moderationQueue (snd (ai_reply env now s fanId personaId message)) =
               moderationQueue s @ [q] \<and>
             mq_content q = message \<and> mq_severity q = ''high'' \<and> mq_status q = Some ''pending'' \<and>
             auditLogs (snd (ai_reply env now s fanId personaId message)) = auditLogs s @ [a] \<and>
             log_action a = ''moderation_action'')) \<and>
   (action (fst (moderateMessage env now message s)) = Review \<longrightarrow>
      (\<exists>q. moderationQueue (snd (ai_reply env now s fanId personaId message)) =
             moderationQueue s @ [q] \<and>
           mq_content q = message \<and> mq_severity q = ''medium'' \<and> mq_status q = Some ''pending'') \<and>
      length (auditLogs (snd (ai_reply env now s fanId personaId message))) =
        length (auditLogs s) +
        (if checkStopWords message \<or>
            (getPersona personaId s \<noteq> None \<and> getFan fanId s \<noteq> None \<and>
             checkConsentGate fanId s)
         then 1 else 0)) \<and>
   (action (fst (moderateMessage env now message s)) = Escalate \<longrightarrow>
      (\<exists>q qs. moderationQueue (snd (ai_reply env now s fanId personaId message)) =
                moderationQueue s @ q # qs \<and>
              mq_content q = message \<and> mq_severity q = ''critical'' \<and>
              mq_status q = Some ''pending''))"
proof (intro conjI impI)
  assume b: "action (fst (moderateMessage env now message s)) = Block"
  obtain a where a: "auditLogs (snd (ai_reply env now s fanId personaId message)) =
      auditLogs s @ [a]" "log_action a = ''moderation_action''"
    using logModerationAction_effect(1) [of env now "[]" "''block''" _ _
        "snd (moderateMessage env now message s)"]
    by (auto simp add: ai_reply_block [OF b])
  show "\<exists>q a. moderationQueue (snd (ai_reply env now s fanId personaId message)) =
               moderationQueue s @ [q] \<and>
             mq_content q = message \<and> mq_severity q = ''high'' \<and> mq_status q = Some ''pending'' \<and>
             auditLogs (snd (ai_reply env now s fanId personaId message)) = auditLogs s @ [a] \<and>
             log_action a = ''moderation_action''"
    using a
    by (simp add: ai_reply_block [OF b] logModerationAction_effect(2) moderateMessage_queue b
          verdict_severity(1) [OF b])
next
  assume r: "action (fst (moderateMessage env now message s)) = Review"
  show "\<exists>q. moderationQueue (snd (ai_reply env now s fanId personaId message)) =
             moderationQueue s @ [q] \<and>
           mq_content q = message \<and> mq_severity q = ''medium'' \<and> mq_status q = Some ''pending''"
    by (simp add: review_turn_queue [OF r] moderateMessage_queue r verdict_severity(2) [OF r])
  show "length (auditLogs (snd (ai_reply env now s fanId personaId message))) =
        length (auditLogs s) +
        (if checkStopWords message \<or>
            (getPersona personaId s \<noteq> None \<and> getFan fanId s \<noteq> None \<and>
             checkConsentGate fanId s)
         then 1 else 0)"
    by (rule review_turn_audit [OF r])
next
  assume e: "action (fst (moderateMessage env now message s)) = Escalate"
  show "\<exists>q qs. moderationQueue (snd (ai_reply env now s fanId personaId message)) =
                moderationQueue s @ q # qs \<and>
              mq_content q = message \<and> mq_severity q = ''critical'' \<and>
              mq_status q = Some ''pending''"
    by (simp add: ai_reply_escalate [OF e] escalateMessage_effect(1) moderateMessage_queue e
          verdict_severity(3) [OF e])
qed

text \<open>The theorem at a blocked, a reviewed and an escalated text, each sent to the small
  system: the lengths of the queue and of the audit log after the turn.\<close>

theorem queue_and_audit_per_verdict_witness:
  "action (fst (moderateMessage demoEnv 7 ''damn'' demoSystem)) = Block \<and>
   length (moderationQueue (snd (ai_reply demoEnv 7 demoSystem ''fan-1'' ''persona-1'' ''damn''))) = 1 \<and>
   length (auditLogs (snd (ai_reply demoEnv 7 demoSystem ''fan-1'' ''persona-1'' ''damn''))) = 1 \<and>
   action (fst (moderateMessage demoEnv 7 ''baby'' demoSystem)) = Review \<and>
   length (moderationQueue (snd (ai_reply demoEnv 7 demoSystem ''fan-1'' ''persona-1'' ''baby''))) = 1 \<and>
   length (auditLogs (snd (ai_reply demoEnv 7 demoSystem ''fan-1'' ''persona-1'' ''baby''))) = 1 \<and>
   action (fst (moderateMessage demoEnv 7 ''harm'' demoSystem)) = Escalate \<and>
   1 \<le> length (moderationQueue (snd (ai_reply demoEnv 7 demoSystem ''fan-1'' ''persona-1'' ''harm'')))"
proof -
  have v: "action (fst (moderateMessage demoEnv 7 ''damn'' demoSystem)) = Block"
    "action (fst (moderateMessage demoEnv 7 ''baby'' demoSystem)) = Review"
    "action (fst (moderateMessage demoEnv 7 ''harm'' demoSystem)) = Escalate"
    by code_simp+
  have c: "\<not> checkStopWords ''baby''" "getPersona ''persona-1'' demoSystem \<noteq> None"
    "getFan ''fan-1'' demoSystem \<noteq> None" "checkConsentGate ''fan-1'' demoSystem"
    "moderationQueue demoSystem = []" "auditLogs demoSystem = []"
    by code_simp+
  show ?thesis
    using queue_and_audit_per_verdict [of demoEnv 7 "''damn''" demoSystem "''fan-1''" "''persona-1''"]
      queue_and_audit_per_verdict [of demoEnv 7 "''baby''" demoSystem "''fan-1''" "''persona-1''"]
      queue_and_audit_per_verdict [of demoEnv 7 "''harm''" demoSystem "''fan-1''" "''persona-1''"]
      v c
    by auto
qed

text \<open>
  C3 as stated (exactly one queue item and exactly one audit entry for each of the three
  verdicts) fails: \<open>little one\<close> from the fan without a consent record draws the verdict
  \<open>review\<close>, is queued once, and the turn ends in the consent prompt with no audit entry.
\<close>

theorem review_without_audit_entry_counterexample:
  "action (fst (moderateMessage demoEnv 7 ''little one'' demoSystem)) = Review \<and>
   fst (ai_reply demoEnv 7 demoSystem ''fan-2'' ''persona-1'' ''little one'') = ConsentRequired \<and>
   length (moderationQueue (snd (ai_reply demoEnv 7 demoSystem ''fan-2'' ''persona-1'' ''little one''))) = 1 \<and>
   auditLogs (snd (ai_reply demoEnv 7 demoSystem ''fan-2'' ''persona-1'' ''little one'')) = []"
  by code_simp

subsection \<open>The consent gate\<close>

lemma no_tier_allows:
  assumes "\<not> matchesTier (escalationPatterns s) c" "\<not> matchesTier (bannedPatterns s) c"
    "\<not> matchesTier (suspiciousPatterns s) c"
  shows "action (fst (moderateMessage env now c s)) = Allow"
    "moderationQueue (snd (moderateMessage env now c s)) = moderationQueue s"
  using assms by (simp_all add: moderateMessage_no_match)

text \<open>
  C5 (as amended). For every inbound message that matches no pattern of any tier and is
  no stop request, sent for an existing persona by an existing fan without full consent
  (no consent record, or one of the two flags false), the handler answers with the fixed
  consent prompt and leaves the messages, the conversations, the fans, the audit log and
  the moderation queue as they were, and does not call the response generator. The
  consent gate itself is a read of the fan row: it holds exactly when the fan exists and
  both flags of its consent record are true.
\<close>

theorem consent_required_without_full_consent:
  assumes "\<not> matchesTier (escalationPatterns s) message"
    "\<not> matchesTier (bannedPatterns s) message"
    "\<not> matchesTier (suspiciousPatterns s) message"
    "\<not> checkStopWords message"
    "getPersona personaId s = Some persona"
    "getFan fanId s = Some fan"
    "case fan_consentStatus fan of None \<Rightarrow> True
     | Some consent \<Rightarrow> \<not> ageAffirmed consent \<or> \<not> romanticContent consent"
  shows "fst (ai_reply env now s fanId personaId message) = ConsentRequired \<and>
         messages (snd (ai_reply env now s fanId personaId message)) = messages s \<and>
         conversations (snd (ai_reply env now s fanId personaId message)) = conversations s \<and>
         fans (snd (ai_reply env now s fanId personaId message)) = fans s \<and>
         auditLogs (snd (ai_reply env now s fanId personaId message)) = auditLogs s \<and>
         moderationQueue (snd (ai_reply env now s fanId personaId message)) = moderationQueue s \<and>
         llmRequests (snd (ai_reply env now s fanId personaId message)) = llmRequests s \<and>
         (\<forall>f. checkConsentGate f s =
            (\<exists>row consent. getFan f s = Some row \<and> fan_consentStatus row = Some consent \<and>
               ageAffirmed consent \<and> romanticContent consent))"
proof -
  have v: "action (fst (moderateMessage env now message s)) \<noteq> Block"
    "action (fst (moderateMessage env now message s)) \<noteq> Escalate"
    using no_tier_allows(1) [OF assms(1,2,3)] by simp_all
  have g: "\<not> checkConsentGate fanId s"
    using assms(6,7) by (auto simp add: checkConsentGate_def split: option.splits)
  have r: "ai_reply env now s fanId personaId message =
      (ConsentRequired, snd (moderateMessage env now message s))"
    by (rule ai_reply_consent_required [OF v assms(4,5,6) g])
  have gate: "\<forall>f. checkConsentGate f s =
      (\<exists>row consent. getFan f s = Some row \<and> fan_consentStatus row = Some consent \<and>
         ageAffirmed consent \<and> romanticContent consent)"
    by (auto simp add: checkConsentGate_def split: option.splits)
  show ?thesis
    using gate by (simp add: r no_tier_allows(2) [OF assms(1,2,3)])
qed

text \<open>The theorem at the text \<open>hello there\<close> from the fan without a consent record.\<close>

theorem consent_required_without_full_consent_witness:
  "\<not> matchesTier (escalationPatterns demoSystem) ''hello there'' \<and>
   \<not> matchesTier (bannedPatterns demoSystem) ''hello there'' \<and>
   \<not> matchesTier (suspiciousPatterns demoSystem) ''hello there'' \<and>
   \<not> checkStopWords ''hello there'' \<and>
   getPersona ''persona-1'' demoSystem = Some demoPersona \<and>
   getFan ''fan-2'' demoSystem = Some demoFanNoConsent \<and>
   fan_consentStatus demoFanNoConsent = None \<and>
   fst (ai_reply demoEnv 7 demoSystem ''fan-2'' ''persona-1'' ''hello there'') = ConsentRequired \<and>
   messages (snd (ai_reply demoEnv 7 demoSystem ''fan-2'' ''persona-1'' ''hello there'')) = []"
proof -
  have h: "\<not> matchesTier (escalationPatterns demoSystem) ''hello there''"
    "\<not> matchesTier (bannedPatterns demoSystem) ''hello there''"
    "\<not> matchesTier (suspiciousPatterns demoSystem) ''hello there''"
    "\<not> checkStopWords ''hello there''"
    "getPersona ''persona-1'' demoSystem = Some demoPersona"
    "getFan ''fan-2'' demoSystem = Some demoFanNoConsent"
    by code_simp+
  have n: "fan_consentStatus demoFanNoConsent = None" "messages demoSystem = []"
    by (simp_all add: demoFanNoConsent_def demoSystem_def startSystem_def)
  have c: "case fan_consentStatus demoFanNoConsent of None \<Rightarrow> True
     | Some consent \<Rightarrow> \<not> ageAffirmed consent \<or> \<not> romanticContent consent"
    by (simp add: n)
  show ?thesis
    using consent_required_without_full_consent [OF h c, of demoEnv 7] h n
    by simp
qed

text \<open>
  C5 as stated (every message that matches no pattern, from a fan without full consent,
  ends in the consent prompt with nothing mutated) fails: the stop-word check comes
  before the consent gate, so \<open>stop\<close> from the fan without a consent record ends in the
  stop acknowledgment and the fan row is rewritten.
\<close>

theorem stop_word_before_consent_gate_counterexample:
  "\<not> matchesTier (escalationPatterns demoSystem) ''stop'' \<and>
   \<not> matchesTier (bannedPatterns demoSystem) ''stop'' \<and>
   \<not> matchesTier (suspiciousPatterns demoSystem) ''stop'' \<and>
   getFan ''fan-2'' demoSystem = Some demoFanNoConsent \<and>
   fan_consentStatus demoFanNoConsent = None \<and>
   fst (ai_reply demoEnv 7 demoSystem ''fan-2'' ''persona-1'' ''stop'') = StopProcessed \<and>
   map fan_boundaries (fans (snd (ai_reply demoEnv 7 demoSystem ''fan-2'' ''persona-1'' ''stop''))) =
     [Some [''no_politics''], Some [''stop_all_messages'']]"
  by code_simp

section \<open>The moderation queue\<close>

text \<open>
  C6 (as amended). The resolve operation makes no check of the current status: for an
  item that exists and a reviewer that is a user, it writes the submitted status, the
  reviewer and the time of the review, whatever the status was, and answers with the
  updated item. So resolving an item a second time succeeds like the first time and
  replaces the first decision.
\<close>

theorem resolve_overwrites_any_status:
  assumes "find (\<lambda>q. mq_id q = ident) (moderationQueue s) = Some item"
    "reviewer \<in> set (users s)"
  shows "resolve_queue_item now s ident (Some status) (Some reviewer) =
           (Inr (Some (item\<lparr>mq_status := Some status, mq_reviewedBy := Some reviewer,
                            mq_reviewedAt := Some now\<rparr>)),
            s\<lparr>moderationQueue :=
                map (\<lambda>q. if mq_id q = ident
                         then q\<lparr>mq_status := Some status, mq_reviewedBy := Some reviewer,
                                mq_reviewedAt := Some now\<rparr>
                         else q) (moderationQueue s)\<rparr>)"
  using assms by (simp add: resolve_queue_item_def updateModerationQueue_def)

text \<open>The theorem at the second resolution of an item that the first has blocked.\<close>

theorem resolve_overwrites_any_status_witness:
  "find (\<lambda>q. mq_id q = ''item-1'') (moderationQueue demoQueueSystem) = Some demoItem \<and>
   mq_status demoItem = Some ''blocked'' \<and>
   ''user-1'' \<in> set (users demoQueueSystem) \<and>
   fst (resolve_queue_item 9 demoQueueSystem ''item-1'' (Some ''approved'') (Some ''user-1'')) =
     Inr (Some (demoItem\<lparr>mq_status := Some ''approved'', mq_reviewedBy := Some ''user-1'',
                         mq_reviewedAt := Some 9\<rparr>))"
proof -
  have h: "find (\<lambda>q. mq_id q = ''item-1'') (moderationQueue demoQueueSystem) = Some demoItem"
    "''user-1'' \<in> set (users demoQueueSystem)"
    by (simp_all add: demoQueueSystem_def demoItem_def startSystem_def)
  have b: "mq_status demoItem = Some ''blocked''"
    by (simp add: demoItem_def)
  show ?thesis
    using resolve_overwrites_any_status [OF h, of 9 "''approved''"] h b
    by simp
qed

text \<open>
  C6 as stated (only pending -> approved and pending -> blocked are permitted, and the
  second resolution of an item is rejected with the item unchanged) fails: an item
  resolved pending -> blocked and then blocked -> approved is answered with the updated
  item both times and ends approved.
\<close>

theorem resolve_twice_counterexample:
  "fst (resolve_queue_item 8 demoPendingSystem ''item-1'' (Some ''blocked'') (Some ''user-1'')) =
     Inr (Some demoItem) \<and>
   fst (resolve_queue_item 9
          (snd (resolve_queue_item 8 demoPendingSystem ''item-1'' (Some ''blocked'') (Some ''user-1'')))
          ''item-1'' (Some ''approved'') (Some ''user-1'')) =
     Inr (Some (demoItem\<lparr>mq_status := Some ''approved'', mq_reviewedAt := Some 9\<rparr>)) \<and>
   map mq_status (moderationQueue
     (snd (resolve_queue_item 9
          (snd (resolve_queue_item 8 demoPendingSystem ''item-1'' (Some ''blocked'') (Some ''user-1'')))
          ''item-1'' (Some ''approved'') (Some ''user-1'')))) = [Some ''approved'']"
  by (simp add: resolve_queue_item_def updateModerationQueue_def demoPendingSystem_def
        demoItem_def startSystem_def)

section \<open>Rounding to a double\<close>

lemma exponent_bounds:
  assumes "0 < x"
  shows "2 powi exponent x \<le> x \<and> x < 2 powi (exponent x + 1)"
proof -
  obtain a b where q: "quotient_of x = (a, b)"
    by (cases "quotient_of x")
  then have x: "x = of_int a / of_int b" and b: "0 < b"
    by (simp_all add: quotient_of_div quotient_of_denom_pos)
  with assms have a: "0 < a"
    by (simp add: zero_less_divide_iff)
  define la lb where "la = bitlen a" and "lb = bitlen b"
  have la: "2 ^ nat (la - 1) \<le> a" "a < 2 ^ nat la" and lb: "2 ^ nat (lb - 1) \<le> b" "b < 2 ^ nat lb"
    using bitlen_bounds [OF a] bitlen_bounds [OF b] by (simp_all add: la_def lb_def)
  have pos: "1 \<le> la" "1 \<le> lb"
    using a b by (auto simp add: la_def lb_def bitlen_alt_def)
  have "(of_int (2 ^ nat (la - 1)) :: rat) \<le> of_int a" "(of_int a :: rat) < of_int (2 ^ nat la)"
    "(of_int (2 ^ nat (lb - 1)) :: rat) \<le> of_int b" "(of_int b :: rat) < of_int (2 ^ nat lb)"
    using la lb by (simp_all only: of_int_le_iff of_int_less_iff)
  then have ra: "(2::rat) powi (la - 1) \<le> of_int a" "(of_int a :: rat) < 2 powi la"
    and rb: "(2::rat) powi (lb - 1) \<le> of_int b" "(of_int b :: rat) < 2 powi lb"
    using pos by (simp_all add: power_int_def)
  have lo: "(2::rat) powi (la - lb - 1) < x"
  proof -
    have "(2::rat) powi (la - lb - 1) = 2 powi (la - 1) / 2 powi lb"
      by (simp add: power_int_diff [symmetric] algebra_simps)
    also have "\<dots> \<le> of_int a / 2 powi lb"
      using ra(1) by (simp add: divide_right_mono)
    also have "\<dots> < of_int a / of_int b"
      using rb(2) a b by (intro divide_strict_left_mono) simp_all
    finally show ?thesis by (simp add: x)
  qed
  have hi: "x < (2::rat) powi (la - lb + 1)"
  proof -
    have "x = of_int a / of_int b" by (rule x)
    also have "\<dots> < 2 powi la / of_int b"
      using ra(2) b by (simp add: divide_strict_right_mono)
    also have "\<dots> \<le> 2 powi la / 2 powi (lb - 1)"
      using rb(1) by (intro frac_le) simp_all
    also have "\<dots> = 2 powi (la - lb + 1)"
      by (simp add: power_int_diff [symmetric] algebra_simps)
    finally show ?thesis .
  qed
  show ?thesis
    using lo hi by (auto simp add: exponent_def q Let_def la_def lb_def)
qed

lemma roundTiesToEven_floor:
  "\<lfloor>x\<rfloor> \<le> roundTiesToEven x \<and> roundTiesToEven x \<le> \<lfloor>x\<rfloor> + 1"
  by (simp add: roundTiesToEven_def Let_def)

lemma roundTiesToEven_error:
  "\<bar>of_int (roundTiesToEven x) - x\<bar> \<le> 1 / 2"
proof -
  have "of_int \<lfloor>x\<rfloor> \<le> x" "x < of_int \<lfloor>x\<rfloor> + 1"
    by linarith+
  then show ?thesis
    by (auto simp add: roundTiesToEven_def Let_def abs_le_iff)
qed

lemma roundTiesToEven_of_int [simp]: "roundTiesToEven (of_int n) = n"
  by (simp add: roundTiesToEven_def)

lemma roundTiesToEven_mono:
  assumes "x \<le> y"
  shows "roundTiesToEven x \<le> roundTiesToEven y"
proof (cases "\<lfloor>x\<rfloor> = \<lfloor>y\<rfloor>")
  case True
  with assms show ?thesis
    by (auto simp add: roundTiesToEven_def Let_def)
next
  case False
  with assms have "\<lfloor>x\<rfloor> + 1 \<le> \<lfloor>y\<rfloor>"
    using floor_mono [OF assms] by simp
  then show ?thesis
    using roundTiesToEven_floor [of x] roundTiesToEven_floor [of y] by simp
qed

lemma double_0 [simp]: "double 0 = 0"
  by (simp add: double_def)

lemma double_minus: "double (- x) = - double x"
  by (simp add: double_def Let_def)

lemma double_pos_eq:
  "0 < x \<Longrightarrow>
   double x = of_int (roundTiesToEven (x / 2 powi (exponent x - 52))) * 2 powi (exponent x - 52)"
  by (simp add: double_def Let_def)

lemma double_pos_bounds:
  assumes "0 < x"
  shows "2 powi exponent x \<le> double x \<and> double x \<le> 2 powi (exponent x + 1)"
proof -
  define e where "e = exponent x"
  define q :: rat where "q = 2 powi (e - 52)"
  have q: "0 < q" by (simp add: q_def)
  have e: "2 powi e \<le> x" "x < 2 powi (e + 1)"
    using exponent_bounds [OF assms] by (simp_all add: e_def)
  have lo: "(2::rat) powi e = of_int (2 ^ 52) * q"
    using power_int_add [of "2::rat" 52 "e - 52"] by (simp add: q_def)
  have hi: "(2::rat) powi (e + 1) = of_int (2 ^ 53) * q"
    using power_int_add [of "2::rat" 53 "e - 52"] by (simp add: q_def add.commute)
  have "of_int (2 ^ 52) \<le> x / q" "x / q \<le> of_int (2 ^ 53)"
    using e q by (simp_all add: lo hi pos_le_divide_eq pos_divide_le_eq)
  then have "roundTiesToEven (of_int (2 ^ 52)) \<le> roundTiesToEven (x / q)"
    "roundTiesToEven (x / q) \<le> roundTiesToEven (of_int (2 ^ 53))"
    by (simp_all only: roundTiesToEven_mono)
  then have "2 ^ 52 \<le> roundTiesToEven (x / q)" "roundTiesToEven (x / q) \<le> 2 ^ 53"
    by (simp_all only: roundTiesToEven_of_int)
  then have "(of_int (2 ^ 52) :: rat) \<le> of_int (roundTiesToEven (x / q))"
    "(of_int (roundTiesToEven (x / q)) :: rat) \<le> of_int (2 ^ 53)"
    by (simp_all only: of_int_le_iff)
  then have "of_int (2 ^ 52) * q \<le> of_int (roundTiesToEven (x / q)) * q"
    "of_int (roundTiesToEven (x / q)) * q \<le> of_int (2 ^ 53) * q"
    using q by (simp_all only: mult_le_cancel_right_pos)
  then show ?thesis
    using assms by (simp add: double_pos_eq e_def [symmetric] q_def [symmetric] lo hi)
qed

lemma double_pos: "0 < x \<Longrightarrow> 0 < double x"
  using double_pos_bounds [of x] zero_less_power_int [of "2::rat" "exponent x"]
  by linarith

lemma double_mono_pos:
  assumes "0 < x" "x \<le> y"
  shows "double x \<le> double y"
proof -
  have y: "0 < y" using assms by simp
  have ex: "2 powi exponent x \<le> x" "x < 2 powi (exponent x + 1)"
    and ey: "2 powi exponent y \<le> y" "y < 2 powi (exponent y + 1)"
    using exponent_bounds [OF assms(1)] exponent_bounds [OF y] by simp_all
  have "(2::rat) powi exponent x < 2 powi (exponent y + 1)"
    using ex(1) ey(2) assms(2) by linarith
  then have le: "exponent x \<le> exponent y"
    using power_int_increasing [of "exponent y + 1" "exponent x" "2::rat"]
    by (cases "exponent x \<le> exponent y") simp_all
  show ?thesis
  proof (cases "exponent x = exponent y")
    case True
    have "x / 2 powi (exponent y - 52) \<le> y / 2 powi (exponent y - 52)"
      using assms(2) by (simp add: divide_right_mono)
    then have "roundTiesToEven (x / 2 powi (exponent y - 52)) \<le>
        roundTiesToEven (y / 2 powi (exponent y - 52))"
      by (rule roundTiesToEven_mono)
    then have "(of_int (roundTiesToEven (x / 2 powi (exponent y - 52))) :: rat) \<le>
        of_int (roundTiesToEven (y / 2 powi (exponent y - 52)))"
      by (simp only: of_int_le_iff)
    then show ?thesis
      using assms(1) y by (simp add: double_pos_eq True mult_right_mono)
  next
    case False
    with le have "exponent x + 1 \<le> exponent y" by simp
    then have "(2::rat) powi (exponent x + 1) \<le> 2 powi exponent y"
      by (intro power_int_increasing) simp_all
    then show ?thesis
      using double_pos_bounds [OF assms(1)] double_pos_bounds [OF y] by linarith
  qed
qed

lemma double_mono:
  assumes "x \<le> y"
  shows "double x \<le> double y"
proof -
  consider "0 < x" | "x = 0" "y = 0" | "x = 0" "0 < y" | "x < 0" "0 < y" | "x < 0" "y = 0"
    | "x < 0" "y < 0"
    using assms by linarith
  then show ?thesis
  proof cases
    case 1
    then show ?thesis using assms by (rule double_mono_pos)
  next
    case 2
    then show ?thesis by simp
  next
    case 3
    then show ?thesis using double_pos [of y] by simp
  next
    case 4
    then show ?thesis
      using double_pos [of y] double_pos [of "- x"] by (simp add: double_minus)
  next
    case 5
    then show ?thesis
      using double_pos [of "- x"] by (simp add: double_minus)
  next
    case 6
    then have "double (- y) \<le> double (- x)"
      using assms by (intro double_mono_pos) simp_all
    then show ?thesis by (simp add: double_minus)
  qed
qed

lemma double_error_pos:
  assumes "0 < x"
  shows "\<bar>double x - x\<bar> \<le> x / 2 ^ 53"
proof -
  define e where "e = exponent x"
  define q :: rat where "q = 2 powi (e - 52)"
  have q: "0 < q" by (simp add: q_def)
  have e: "2 powi e \<le> x"
    using exponent_bounds [OF assms] by (simp add: e_def)
  have lo: "(2::rat) powi e = 2 ^ 52 * q"
    using power_int_add [of "2::rat" 52 "e - 52"] by (simp add: q_def)
  have "\<bar>of_int (roundTiesToEven (x / q)) - x / q\<bar> \<le> 1 / 2"
    by (rule roundTiesToEven_error)
  then have "\<bar>of_int (roundTiesToEven (x / q)) - x / q\<bar> * q \<le> 1 / 2 * q"
    using q by (simp only: mult_le_cancel_right_pos)
  moreover have "\<bar>of_int (roundTiesToEven (x / q)) - x / q\<bar> * q =
      \<bar>of_int (roundTiesToEven (x / q)) * q - x\<bar>"
    using q by (simp add: abs_mult_pos left_diff_distrib)
  ultimately have "\<bar>double x - x\<bar> \<le> q / 2"
    using assms by (simp add: double_pos_eq e_def [symmetric] q_def [symmetric])
  moreover have "q / 2 \<le> x / 2 ^ 53"
    using e by (simp add: lo)
  ultimately show ?thesis by linarith
qed

lemma double_error: "\<bar>double x - x\<bar> \<le> \<bar>x\<bar> / 2 ^ 53"
proof -
  consider "0 < x" | "x = 0" | "x < 0" by linarith
  then show ?thesis
  proof cases
    case 1
    then show ?thesis using double_error_pos [of x] by simp
  next
    case 2
    then show ?thesis by simp
  next
    case 3
    then show ?thesis
      using double_error_pos [of "- x"] by (simp add: double_minus abs_minus_commute)
  qed
qed

section \<open>The compliance score\<close>

lemma double_values: "double 100 = 100" "double 1000 = 1000"
  by code_simp+

lemma double_nonneg: "0 \<le> x \<Longrightarrow> 0 \<le> double x"
  using double_mono [of 0 x] by simp

lemma double_error_nonneg:
  assumes "0 \<le> x"
  shows "x - x / 2 ^ 53 \<le> double x" "double x \<le> x + x / 2 ^ 53"
proof -
  have "\<bar>double x - x\<bar> \<le> x / 9007199254740992"
    using double_error [of x] assms by simp
  then have "double x - x \<le> x / 9007199254740992" "- (double x - x) \<le> x / 9007199254740992"
    by (rule abs_le_D1, rule abs_le_D2)
  then show "x - x / 2 ^ 53 \<le> double x" "double x \<le> x + x / 2 ^ 53"
    by simp_all
qed

lemma Math_round_mono: "x \<le> y \<Longrightarrow> Math_round x \<le> Math_round y"
  by (simp add: Math_round_def floor_mono)

lemma Math_round_error: "Math_round x - x \<le> 1 / 2" "x - Math_round x \<le> 1 / 2"
proof -
  have "of_int \<lfloor>x + 1 / 2\<rfloor> \<le> x + 1 / 2" "x + 1 / 2 < of_int \<lfloor>x + 1 / 2\<rfloor> + 1"
    by linarith+
  then show "Math_round x - x \<le> 1 / 2" "x - Math_round x \<le> 1 / 2"
    unfolding Math_round_def by linarith+
qed

text \<open>The steps of the computation, for a non-empty queue.\<close>

lemma score_steps_range:
  assumes "0 \<le> r"
  shows "0 \<le> max 0 (double (100 - double (double r * 100)))"
    "max 0 (double (100 - double (double r * 100))) \<le> 100"
proof -
  have "0 \<le> double (double r * 100)"
    using assms by (simp add: double_nonneg)
  then have "double (100 - double (double r * 100)) \<le> double 100"
    by (intro double_mono) simp
  then show "max 0 (double (100 - double (double r * 100))) \<le> 100"
    by (simp add: double_values)
  show "0 \<le> max 0 (double (100 - double (double r * 100)))"
    by simp
qed

lemma rounded_tenths:
  assumes "0 \<le> sc" "sc \<le> 100"
  shows "0 \<le> \<lfloor>double (sc * 10) + 1 / 2\<rfloor>" "\<lfloor>double (sc * 10) + 1 / 2\<rfloor> \<le> 1000"
proof -
  have "double 0 \<le> double (sc * 10)" "double (sc * 10) \<le> double 1000"
    using assms by (intro double_mono; simp)+
  then have m: "0 \<le> double (sc * 10)" "double (sc * 10) \<le> 1000"
    by (simp_all add: double_values)
  then show "0 \<le> \<lfloor>double (sc * 10) + 1 / 2\<rfloor>"
    by simp
  have "\<lfloor>double (sc * 10) + 1 / 2\<rfloor> \<le> \<lfloor>(1000::rat) + 1 / 2\<rfloor>"
    using m by (intro floor_mono) simp
  moreover have "\<lfloor>(1000::rat) + 1 / 2\<rfloor> = 1000"
    by linarith
  ultimately show "\<lfloor>double (sc * 10) + 1 / 2\<rfloor> \<le> 1000"
    by simp
qed

lemma scoreFromCounts_tenths:
  "\<exists>k. 0 \<le> k \<and> k \<le> 1000 \<and> scoreFromCounts t b c = double (of_int k / 10)"
proof (cases "t = 0")
  case True
  have "scoreFromCounts t b c = double (of_int 1000 / 10)"
    using True by (simp add: scoreFromCounts_def double_values)
  then show ?thesis by (intro exI [of _ 1000]) simp
next
  case False
  define r where "r = double (double (of_nat b + double (of_nat c * 2)) / of_nat t)"
  define sc where "sc = max 0 (double (100 - double (r * 100)))"
  have "0 \<le> double (of_nat b + double (of_nat c * 2)) / of_nat t"
    by (intro divide_nonneg_nonneg double_nonneg add_nonneg_nonneg) simp_all
  then have sc: "0 \<le> sc" "sc \<le> 100"
    using score_steps_range [of "double (of_nat b + double (of_nat c * 2)) / of_nat t"]
    by (simp_all add: sc_def r_def)
  have "scoreFromCounts t b c = double (of_int \<lfloor>double (sc * 10) + 1 / 2\<rfloor> / 10)"
    using False by (simp add: scoreFromCounts_def Math_round_def sc_def r_def Let_def)
  then show ?thesis
    using rounded_tenths [OF sc] by blast
qed

lemma scoreFromCounts_range: "0 \<le> scoreFromCounts t b c \<and> scoreFromCounts t b c \<le> 100"
proof -
  obtain k where k: "0 \<le> k" "k \<le> 1000" "scoreFromCounts t b c = double (of_int k / 10)"
    using scoreFromCounts_tenths by blast
  have "(0::rat) \<le> of_int k / 10" "(of_int k :: rat) / 10 \<le> 100"
    using k(1,2) by simp_all
  then have "double 0 \<le> double (of_int k / 10)" "double (of_int k / 10) \<le> double 100"
    by (simp_all only: double_mono)
  then show ?thesis
    by (simp add: k(3) double_values)
qed

lemma scoreFromCounts_antimono:
  assumes "b \<le> b'" "c \<le> c'"
  shows "scoreFromCounts t b' c' \<le> scoreFromCounts t b c"
proof (cases "t = 0")
  case True
  then show ?thesis by (simp add: scoreFromCounts_def)
next
  case False
  define a where "a = double (of_nat b + double (of_nat c * 2))"
  define a' where "a' = double (of_nat b' + double (of_nat c' * 2))"
  define w where "w = double (double (a / of_nat t) * 100)"
  define w' where "w' = double (double (a' / of_nat t) * 100)"
  define sc where "sc = max 0 (double (100 - w))"
  define sc' where "sc' = max 0 (double (100 - w'))"
  have "(of_nat c :: rat) * 2 \<le> of_nat c' * 2"
    using assms(2) by simp
  then have "double (of_nat c * 2) \<le> double (of_nat c' * 2)"
    by (rule double_mono)
  moreover have "(of_nat b :: rat) \<le> of_nat b'"
    using assms(1) by simp
  ultimately have "of_nat b + double (of_nat c * 2) \<le> of_nat b' + double (of_nat c' * 2)"
    by (rule add_mono [rotated])
  then have "a \<le> a'"
    unfolding a_def a'_def by (rule double_mono)
  then have "a / of_nat t \<le> a' / of_nat t"
    by (simp add: divide_right_mono)
  then have "double (a / of_nat t) \<le> double (a' / of_nat t)"
    by (rule double_mono)
  then have "double (a / of_nat t) * 100 \<le> double (a' / of_nat t) * 100"
    by simp
  then have "w \<le> w'"
    unfolding w_def w'_def by (rule double_mono)
  then have "100 - w' \<le> 100 - w"
    by simp
  then have "double (100 - w') \<le> double (100 - w)"
    by (rule double_mono)
  then have "sc' \<le> sc"
    by (simp add: sc_def sc'_def max.coboundedI2)
  then have "sc' * 10 \<le> sc * 10"
    by simp
  then have "double (sc' * 10) \<le> double (sc * 10)"
    by (rule double_mono)
  then have "Math_round (double (sc' * 10)) \<le> Math_round (double (sc * 10))"
    by (rule Math_round_mono)
  then have "Math_round (double (sc' * 10)) / 10 \<le> Math_round (double (sc * 10)) / 10"
    by simp
  then have "double (Math_round (double (sc' * 10)) / 10) \<le>
      double (Math_round (double (sc * 10)) / 10)"
    by (rule double_mono)
  then show ?thesis
    using False
    by (simp add: scoreFromCounts_def Let_def sc_def sc'_def w_def w'_def a_def a'_def)
qed

lemma double_error_num:
  assumes "0 \<le> x"
  shows "x - x / 9007199254740992 \<le> double x" "double x \<le> x + x / 9007199254740992"
  using double_error_nonneg [OF assms] by simp_all

lemma Math_round_nonneg: "0 \<le> x \<Longrightarrow> 0 \<le> Math_round x"
  by (simp add: Math_round_def)

lemma scoreFromCounts_error:
  assumes "b \<le> t" "c \<le> t"
  shows "\<bar>scoreFromCounts t b c - spec_score t b c\<bar> \<le> 1 / 20 + 1 / 10 ^ 12"
proof (cases "t = 0")
  case True
  then show ?thesis by (simp add: scoreFromCounts_def spec_score_def)
next
  case False
  define B C T :: rat where "B = of_nat b" and "C = of_nat c" and "T = of_nat t"
  define A where "A = (B + 2 * C) / T"
  define c2 where "c2 = double (C * 2)"
  define a where "a = double (B + c2)"
  define r where "r = a / T"
  define v where "v = double r"
  define w where "w = double (v * 100)"
  define d where "d = double (100 - w)"
  define sc where "sc = max 0 d"
  define m where "m = double (sc * 10)"
  define k where "k = Math_round m"
  define res where "res = double (k / 10)"
  define sp where "sp = max 0 (100 - 100 * A)"
  have T: "0 < T" and B: "0 \<le> B" "B \<le> T" and C: "0 \<le> C" "C \<le> T"
    using False assms by (simp_all add: B_def C_def T_def)
  have A: "0 \<le> A" "A \<le> 3"
    using T B C by (simp_all add: A_def pos_divide_le_eq)
  have c2: "0 \<le> c2" "C * 2 - C * 2 / 9007199254740992 \<le> c2"
    "c2 \<le> C * 2 + C * 2 / 9007199254740992"
    unfolding c2_def using C(1) by (intro double_nonneg double_error_num; simp)+
  have a0: "0 \<le> a" "(B + c2) - (B + c2) / 9007199254740992 \<le> a"
    "a \<le> (B + c2) + (B + c2) / 9007199254740992"
    unfolding a_def using B(1) c2(1) by (intro double_nonneg double_error_num; simp)+
  have a: "(B + 2 * C) - (B + 2 * C) * (3 / 9007199254740992) \<le> a"
    "a \<le> (B + 2 * C) + (B + 2 * C) * (3 / 9007199254740992)"
    using a0 c2 B(1) C(1) by (simp_all add: algebra_simps add_divide_distrib diff_divide_distrib)
  have "((B + 2 * C) - (B + 2 * C) * (3 / 9007199254740992)) / T \<le> a / T"
    "a / T \<le> ((B + 2 * C) + (B + 2 * C) * (3 / 9007199254740992)) / T"
    using a T by (simp_all only: divide_right_mono less_imp_le)
  then have r: "A - A * (3 / 9007199254740992) \<le> r" "r \<le> A + A * (3 / 9007199254740992)"
    by (simp_all add: r_def A_def diff_divide_distrib add_divide_distrib)
  have r0: "0 \<le> r"
    using a0(1) T by (simp add: r_def)
  have v: "0 \<le> v" "r - r / 9007199254740992 \<le> v" "v \<le> r + r / 9007199254740992"
    unfolding v_def using r0 by (intro double_nonneg double_error_num; simp)+
  have v': "A - 13 / 9007199254740992 \<le> v" "v \<le> A + 13 / 9007199254740992"
    using v r A by (simp_all add: algebra_simps add_divide_distrib diff_divide_distrib)
  have w: "0 \<le> w" "v * 100 - v * 100 / 9007199254740992 \<le> w"
    "w \<le> v * 100 + v * 100 / 9007199254740992"
    unfolding w_def using v(1) by (intro double_nonneg double_error_num; simp)+
  have w': "100 * A - 1700 / 9007199254740992 \<le> w" "w \<le> 100 * A + 1700 / 9007199254740992"
    "w \<le> 301"
    using w v' A by (simp_all add: algebra_simps add_divide_distrib diff_divide_distrib)
  have "\<bar>d - (100 - w)\<bar> \<le> \<bar>100 - w\<bar> / 9007199254740992"
    using double_error [of "100 - w"] by (simp add: d_def)
  moreover have "\<bar>100 - w\<bar> / 9007199254740992 \<le> 201 / 9007199254740992"
    using w(1) w'(3) by simp
  ultimately have "\<bar>d - (100 - w)\<bar> \<le> 201 / 9007199254740992"
    by (rule order_trans)
  then have "d - (100 - w) \<le> 201 / 9007199254740992" "- (d - (100 - w)) \<le> 201 / 9007199254740992"
    by (rule abs_le_D1, rule abs_le_D2)
  then have d: "(100 - 100 * A) - 1901 / 9007199254740992 \<le> d"
    "d \<le> (100 - 100 * A) + 1901 / 9007199254740992"
    using w' by (simp_all add: algebra_simps add_divide_distrib diff_divide_distrib)
  have sc: "0 \<le> sc" "sp - 1901 / 9007199254740992 \<le> sc" "sc \<le> sp + 1901 / 9007199254740992"
    using d by (simp_all add: sc_def sp_def max_def)
  have sp: "0 \<le> sp" "sp \<le> 100"
    using A by (simp_all add: sp_def)
  have m: "0 \<le> m" "sc * 10 - sc * 10 / 9007199254740992 \<le> m"
    "m \<le> sc * 10 + sc * 10 / 9007199254740992"
    unfolding m_def using sc(1) by (intro double_nonneg double_error_num; simp)+
  have m': "10 * sp - 20100 / 9007199254740992 \<le> m" "m \<le> 10 * sp + 20100 / 9007199254740992"
    using m sc sp by (simp_all add: algebra_simps add_divide_distrib diff_divide_distrib)
  have k: "0 \<le> k" "k - m \<le> 1 / 2" "m - k \<le> 1 / 2"
    unfolding k_def using m(1) by (intro Math_round_nonneg Math_round_error; simp)+
  have res: "k / 10 - k / 10 / 9007199254740992 \<le> res" "res \<le> k / 10 + k / 10 / 9007199254740992"
    unfolding res_def using k(1) by (intro double_error_num; simp)+
  have "res - sp \<le> 1 / 20 + 1 / 10 ^ 12" "sp - res \<le> 1 / 20 + 1 / 10 ^ 12"
    using res k m' sp by (simp_all add: algebra_simps add_divide_distrib diff_divide_distrib)
  then have "res - sp \<le> 1 / 20 + 1 / 10 ^ 12 \<and> - (res - sp) \<le> 1 / 20 + 1 / 10 ^ 12"
    by simp
  then have "\<bar>res - sp\<bar> \<le> 1 / 20 + 1 / 10 ^ 12"
    by (simp only: abs_le_iff)
  moreover have "scoreFromCounts t b c = res"
    using False
    by (simp add: scoreFromCounts_def Let_def res_def k_def m_def sc_def d_def w_def v_def r_def
          a_def c2_def B_def C_def T_def)
  moreover have "spec_score t b c = sp"
  proof -
    have "100 * of_nat (b + 2 * c) / (of_nat t :: rat) = 100 * A"
      by (simp add: A_def B_def C_def T_def)
    then show ?thesis
      using False by (simp add: spec_score_def sp_def max_def min_def)
  qed
  ultimately show ?thesis by simp
qed

lemma getComplianceScore_counts:
  "getComplianceScore s =
     scoreFromCounts (length (moderationQueue s)) (blocked_count s) (critical_count s)"
  by (simp add: getComplianceScore_def scoreFromCounts_def blocked_count_def critical_count_def
        Let_def)

lemma counts_le_length:
  "blocked_count s \<le> length (moderationQueue s)" "critical_count s \<le> length (moderationQueue s)"
  by (simp_all add: blocked_count_def critical_count_def)

text \<open>For 49 blocked items of 80 the exact value of the formula is 38.75. The doubles give
  \<open>(49/80)*100 = 61.25000000000001\<close>, the score times ten is just below 387.5, and the
  result is the double 38.7.\<close>

lemma compliance_score_49_of_80:
  "double (double (49 / 80) * 100) = 8620171161763841 / 140737488355328 \<and>
   getComplianceScore demoEightySystem = double (387 / 10) \<and>
   spec_score 80 49 0 = 155 / 4"
  by code_simp

text \<open>
  C8 (as amended). The score is the value \<open>100 - min(100, 100 * (blocked_count +
  2*critical_count) / total_count)\<close> over the moderation queue, computed in double
  arithmetic and rounded to one decimal place by \<open>Math.round(score * 10) / 10\<close>: it is the
  double nearest to \<open>k/10\<close> for an integer \<open>k\<close> from 0 to 1000, and it differs from the exact
  value of the formula by at most \<open>0.05 + 10^(-12)\<close>. It lies in [0,100], it is exactly
  100 when the queue is empty, and between two queues of the same length it does not
  increase when neither the number of blocked items nor the number of critical items
  decreases.
\<close>

theorem compliance_score_double_arithmetic:
  "(\<exists>k. 0 \<le> k \<and> k \<le> 1000 \<and> getComplianceScore s = double (of_int k / 10)) \<and>
   \<bar>getComplianceScore s -
      spec_score (length (moderationQueue s)) (blocked_count s) (critical_count s)\<bar>
     \<le> 1 / 20 + 1 / 10 ^ 12 \<and>
   0 \<le> getComplianceScore s \<and> getComplianceScore s \<le> 100 \<and>
   (moderationQueue s = [] \<longrightarrow> getComplianceScore s = 100) \<and>
   (length (moderationQueue s') = length (moderationQueue s) \<and>
    blocked_count s \<le> blocked_count s' \<and> critical_count s \<le> critical_count s' \<longrightarrow>
      getComplianceScore s' \<le> getComplianceScore s)"
proof (intro conjI impI)
  show "\<exists>k. 0 \<le> k \<and> k \<le> 1000 \<and> getComplianceScore s = double (of_int k / 10)"
    by (simp only: getComplianceScore_counts scoreFromCounts_tenths)
  show "\<bar>getComplianceScore s -
      spec_score (length (moderationQueue s)) (blocked_count s) (critical_count s)\<bar>
     \<le> 1 / 20 + 1 / 10 ^ 12"
    unfolding getComplianceScore_counts
    by (rule scoreFromCounts_error) (rule counts_le_length)+
  show "0 \<le> getComplianceScore s" "getComplianceScore s \<le> 100"
    using scoreFromCounts_range by (simp_all only: getComplianceScore_counts)
next
  assume "moderationQueue s = []"
  then show "getComplianceScore s = 100"
    by (simp add: getComplianceScore_def)
next
  assume "length (moderationQueue s') = length (moderationQueue s) \<and>
    blocked_count s \<le> blocked_count s' \<and> critical_count s \<le> critical_count s'"
  then show "getComplianceScore s' \<le> getComplianceScore s"
    by (simp add: getComplianceScore_counts scoreFromCounts_antimono)
qed

text \<open>The theorem at two queues of one item, pending and blocked, and at the empty queue.\<close>

theorem compliance_score_double_arithmetic_witness:
  "length (moderationQueue demoQueueSystem) = length (moderationQueue demoPendingSystem) \<and>
   blocked_count demoPendingSystem \<le> blocked_count demoQueueSystem \<and>
   critical_count demoPendingSystem \<le> critical_count demoQueueSystem \<and>
   getComplianceScore demoQueueSystem \<le> getComplianceScore demoPendingSystem \<and>
   moderationQueue (startSystem [] [] []) = [] \<and> getComplianceScore (startSystem [] [] []) = 100"
proof -
  have h: "length (moderationQueue demoQueueSystem) = length (moderationQueue demoPendingSystem)"
    "blocked_count demoPendingSystem \<le> blocked_count demoQueueSystem"
    "critical_count demoPendingSystem \<le> critical_count demoQueueSystem"
    "moderationQueue (startSystem [] [] []) = []"
    by (simp_all add: demoQueueSystem_def demoPendingSystem_def demoItem_def startSystem_def
          blocked_count_def critical_count_def)
  show ?thesis
    using compliance_score_double_arithmetic [of demoPendingSystem demoQueueSystem]
      compliance_score_double_arithmetic [of "startSystem [] [] []" demoQueueSystem] h
    by simp
qed

text \<open>
  C8 as stated (the score is the value of the formula) fails: for a queue of three items
  with one blocked the formula gives 200/3, and the code returns the double 66.7, more
  than 0.03 away.
\<close>

theorem compliance_score_rounding_counterexample:
  "length (moderationQueue demoScoreSystem) = 3 \<and> blocked_count demoScoreSystem = 1 \<and>
   critical_count demoScoreSystem = 0 \<and> spec_score 3 1 0 = 200 / 3 \<and>
   getComplianceScore demoScoreSystem = double (667 / 10) \<and>
   3 / 100 < getComplianceScore demoScoreSystem - spec_score 3 1 0"
  by code_simp

section \<open>Recording a consent affirmation\<close>

lemma getFan_updateFan:
  assumes "\<And>f. fan_id (g f) = fan_id f"
  shows "getFan ident (updateFan ident g now s) =
           map_option (\<lambda>f. (g f)\<lparr>fan_updatedAt := now\<rparr>) (getFan ident s)"
proof -
  have "find (\<lambda>f. fan_id f = ident)
          (map (\<lambda>f. if fan_id f = ident then (g f)\<lparr>fan_updatedAt := now\<rparr> else f) fs) =
        map_option (\<lambda>f. (g f)\<lparr>fan_updatedAt := now\<rparr>) (find (\<lambda>f. fan_id f = ident) fs)" for fs
    by (induction fs) (simp_all add: assms)
  then show ?thesis
    by (simp add: getFan_def updateFan_def)
qed

lemma logFanInteraction_fans [simp]:
  "fans (logFanInteraction env now fanId t d s) = fans s"
  by (simp add: logFanInteraction_def logAction_def createAuditLog_def)

lemma getFan_logFanInteraction [simp]:
  "getFan ident (logFanInteraction env now fanId t d s) = getFan ident s"
  by (simp add: getFan_def)

text \<open>
  C10. \<open>POST /api/consent/affirm\<close> writes a new consent record over the old one on every
  call: for a fan that exists, the stored record afterwards has \<open>ageAffirmed\<close> true exactly
  when the submitted array contains the string "I am 18+", and \<open>romanticContent\<close> true
  exactly when it contains "I consent to romantic messages"; nothing else in the array
  or in the earlier record counts. The response carries the same record. After a call
  with the empty array both flags are false and the consent gate fails, whatever the
  fan had affirmed before.
\<close>

theorem consent_affirm_replaces_record:
  "fst (consent_affirm env now s fanId affirmations) =
     \<lparr>ageAffirmed = (''I am 18+'' \<in> set affirmations),
      romanticContent = (''I consent to romantic messages'' \<in> set affirmations),
      timestamp = now\<rparr> \<and>
   (getFan fanId s = Some fan \<longrightarrow>
      getFan fanId (snd (consent_affirm env now s fanId affirmations)) =
        Some (fan\<lparr>fan_consentStatus :=
                    Some \<lparr>ageAffirmed = (''I am 18+'' \<in> set affirmations),
                          romanticContent = (''I consent to romantic messages'' \<in> set affirmations),
                          timestamp = now\<rparr>,
                  fan_updatedAt := now\<rparr>) \<and>
      getFan fanId (snd (consent_affirm env now s fanId [])) =
        Some (fan\<lparr>fan_consentStatus :=
                    Some \<lparr>ageAffirmed = False, romanticContent = False, timestamp = now\<rparr>,
                  fan_updatedAt := now\<rparr>) \<and>
      \<not> checkConsentGate fanId (snd (consent_affirm env now s fanId [])))"
  by (simp add: consent_affirm_def Let_def getFan_updateFan checkConsentGate_def)

text \<open>The theorem at the fan of the small system who had full consent: the phrase for
  the age alone leaves the gate closed, and the empty array revokes both flags.\<close>

theorem consent_affirm_replaces_record_witness:
  "getFan ''fan-1'' demoSystem = Some demoFan \<and> checkConsentGate ''fan-1'' demoSystem \<and>
   map_option fan_consentStatus
     (getFan ''fan-1'' (snd (consent_affirm demoEnv 9 demoSystem ''fan-1'' [''I am 18+'', ''yes'']))) =
     Some (Some \<lparr>ageAffirmed = True, romanticContent = False, timestamp = 9\<rparr>) \<and>
   map_option fan_consentStatus
     (getFan ''fan-1'' (snd (consent_affirm demoEnv 9 demoSystem ''fan-1'' []))) =
     Some (Some \<lparr>ageAffirmed = False, romanticContent = False, timestamp = 9\<rparr>) \<and>
   \<not> checkConsentGate ''fan-1'' (snd (consent_affirm demoEnv 9 demoSystem ''fan-1'' []))"
proof -
  have h: "getFan ''fan-1'' demoSystem = Some demoFan" "checkConsentGate ''fan-1'' demoSystem"
    by code_simp+
  show ?thesis
    using consent_affirm_replaces_record
            [of demoEnv 9 demoSystem "''fan-1''" "[''I am 18+'', ''yes'']" demoFan] h
    by simp
qed

end
